theory Spec2Isabelle
  imports Complex_Main "HOL-Library.Log_Nat"
begin

section \<open>Numbers\<close>

text \<open>
  The analyzer of \<^verbatim>\<open>src/utils/imageAnalysis.ts\<close> computes with JavaScript numbers, which
  are IEEE 754 double-precision values. A number is modelled as the rational it denotes,
  and every arithmetic operation of the source whose result need not be representable
  rounds it to the nearest double, a tie going to the even significand.

  \<open>rne\<close> rounds a rational to the nearest integer, a tie to the even one. \<open>binade x\<close> is the
  exponent \<open>e\<close> with \<open>2 ^ e \<le> x < 2 ^ (e + 1)\<close>, for a positive \<open>x\<close>. \<open>fl\<close> rounds to 53 significant
  bits, and below \<open>2 ^ - 1022\<close> to a multiple of \<open>2 ^ - 1074\<close>. What is not modelled: an
  overflow to \<^verbatim>\<open>Infinity\<close>, \<^verbatim>\<open>NaN\<close> and the sign of zero; no value of the analyzer comes near
  \<open>2 ^ 1024\<close>, and the quotients have a divisor that is not zero for every image the browser
  can deliver (see \<open>valid_image\<close>).

  Bytes, sums and differences of bytes, tallies and pixel counts are whole numbers below
  \<open>2 ^ 53\<close>, which doubles represent and add exactly; they are \<open>nat\<close> or \<open>int\<close> here.
\<close>

type_synonym number = rat

definition rne :: "rat \<Rightarrow> int" where
  "rne x =
     (let f = \<lfloor>x\<rfloor>; d = x - of_int f
      in if d < 1 / 2 then f
         else if 1 / 2 < d then f + 1
         else if even f then f else f + 1)"

definition binade :: "rat \<Rightarrow> int" where
  "binade x = (if 1 \<le> x then bitlen \<lfloor>x\<rfloor> - 1 else - bitlen (\<lceil>1 / x\<rceil> - 1))"

definition fl :: "rat \<Rightarrow> number" where
  "fl x =
     (if x = 0 then 0
      else let u = 2 powi (max (binade \<bar>x\<bar>) (- 1022) - 52)
           in sgn x * of_int (rne (\<bar>x\<bar> / u)) * u)"

text \<open>The four operations \<^verbatim>\<open>+\<close>, \<^verbatim>\<open>-\<close>, \<^verbatim>\<open>*\<close>, \<^verbatim>\<open>/\<close> on doubles.\<close>

definition fadd :: "number \<Rightarrow> number \<Rightarrow> number" where
  "fadd x y = fl (x + y)"

definition fsub :: "number \<Rightarrow> number \<Rightarrow> number" where
  "fsub x y = fl (x - y)"

definition fmul :: "number \<Rightarrow> number \<Rightarrow> number" where
  "fmul x y = fl (x * y)"

definition fdiv :: "number \<Rightarrow> number \<Rightarrow> number" where
  "fdiv x y = fl (x / y)"

text \<open>
  \<^verbatim>\<open>Math.round\<close> is the integer nearest to the value of its argument, a tie going up;
  \<^verbatim>\<open>Math.ceil\<close> is the ceiling of the value. Neither rounds in between.
\<close>

definition Math_round :: "number \<Rightarrow> int" where
  "Math_round x = \<lfloor>x + 1 / 2\<rfloor>"

definition Math_ceil :: "number \<Rightarrow> int" where
  "Math_ceil x = \<lceil>x\<rceil>"

section \<open>Images\<close>

text \<open>
  \<^verbatim>\<open>ImageData\<close>: \<open>data\<close> is the flat RGBA byte array, four entries per pixel, row by row.
\<close>

record ImageData =
  width :: nat
  height :: nat
  data :: "nat list"

text \<open>
  What the browser guarantees of every \<^verbatim>\<open>ImageData\<close> object (\<^verbatim>\<open>getImageData\<close> raises on
  a zero width or height, and the array is a \<^verbatim>\<open>Uint8ClampedArray\<close> of length
  \<open>4 * width * height\<close>). Outside of it the source divides zero by zero or reads past the
  array and computes with \<^verbatim>\<open>NaN\<close>; the theorems about images assume it.
\<close>

definition valid_image :: "ImageData \<Rightarrow> bool" where
  "valid_image img \<longleftrightarrow>
     0 < width img \<and> 0 < height img \<and>
     length (data img) = 4 * width img * height img \<and>
     list_all (\<lambda>v. v < 256) (data img)"

definition brightness :: "nat \<Rightarrow> nat \<Rightarrow> nat \<Rightarrow> number" where
  "brightness r g b = fdiv (of_nat r + of_nat g + of_nat b) 3"

definition colorVariation :: "nat \<Rightarrow> nat \<Rightarrow> nat \<Rightarrow> number" where
  "colorVariation r g b =
     \<bar>of_nat r - of_nat g\<bar> + \<bar>of_nat g - of_nat b\<bar> + \<bar>of_nat b - of_nat r\<bar>"

section \<open>Black-spot detection\<close>

text \<open>The two tests of the loop body of \<^verbatim>\<open>detectBlackSpots\<close>.\<close>

definition isBlackSpot :: "nat \<Rightarrow> nat \<Rightarrow> nat \<Rightarrow> bool" where
  "isBlackSpot r g b \<longleftrightarrow> brightness r g b < 60 \<and> colorVariation r g b < 30"

definition isPotentialSpot :: "nat \<Rightarrow> nat \<Rightarrow> nat \<Rightarrow> bool" where
  "isPotentialSpot r g b \<longleftrightarrow>
     brightness r g b < 100 \<and> g < r \<and> b < r \<and> 40 < colorVariation r g b"

text \<open>
  \<^verbatim>\<open>for (let i = 0; i < data.length; i += 4)\<close>, reading \<open>data[i]\<close>, \<open>data[i+1]\<close>, \<open>data[i+2]\<close>:
  the state is the pair \<open>(blackSpotPixels, potentialSpots)\<close>. A last group with fewer
  than three entries reads \<^verbatim>\<open>undefined\<close>, every test on it is false and nothing is counted.
\<close>

fun blackSpotLoop :: "nat list \<Rightarrow> nat \<times> nat \<Rightarrow> nat \<times> nat" where
  "blackSpotLoop (r # g # b # rest) (blackSpotPixels, potentialSpots) =
     blackSpotLoop (tl rest)
       (if isBlackSpot r g b then blackSpotPixels + 1 else blackSpotPixels,
        if isPotentialSpot r g b then potentialSpots + 1 else potentialSpots)"
| "blackSpotLoop _ acc = acc"

record BlackSpotAnalysis =
  bs_hasBlackSpots :: bool
  bs_count :: int
  bs_percentage :: number

definition detectBlackSpots :: "ImageData \<Rightarrow> BlackSpotAnalysis" where
  "detectBlackSpots imageData =
     (let totalPixels = width imageData * height imageData;
          (blackSpotPixels, potentialSpots) = blackSpotLoop (data imageData) (0, 0);
          blackSpotPercentage = fmul (fdiv (of_nat blackSpotPixels) (of_nat totalPixels)) 100;
          hasBlackSpots = (blackSpotPercentage > fl (1 / 10));
          estimatedSpotCount =
            Math_ceil (fdiv (of_nat blackSpotPixels) (fmul (of_nat (width imageData)) (fl (2 / 100))))
      in \<lparr> bs_hasBlackSpots = hasBlackSpots,
           bs_count = (if hasBlackSpots then max 1 estimatedSpotCount else 0),
           bs_percentage = fdiv (of_int (Math_round (fmul blackSpotPercentage 100))) 100 \<rparr>)"

section \<open>Damage assessment\<close>

definition isYellowing :: "nat \<Rightarrow> nat \<Rightarrow> nat \<Rightarrow> bool" where
  "isYellowing r g b \<longleftrightarrow> r > 180 \<and> g > 150 \<and> b < 100 \<and> brightness r g b > 150"

definition isBrowning :: "nat \<Rightarrow> nat \<Rightarrow> nat \<Rightarrow> bool" where
  "isBrowning r g b \<longleftrightarrow>
     r > 100 \<and> r < 180 \<and> g > 50 \<and> g < 130 \<and> b < 80 \<and> brightness r g b < 150"

definition isWilting :: "nat \<Rightarrow> nat \<Rightarrow> nat \<Rightarrow> bool" where
  "isWilting r g b \<longleftrightarrow>
     of_nat g < fmul (of_nat r) (fl (7 / 10)) \<and>
     of_nat g < fmul (of_nat b) (fl (8 / 10)) \<and> brightness r g b < 120"

definition isWhitePatch :: "nat \<Rightarrow> nat \<Rightarrow> nat \<Rightarrow> bool" where
  "isWhitePatch r g b \<longleftrightarrow>
     brightness r g b > 200 \<and>
     \<bar>of_nat r - of_nat g :: number\<bar> < 20 \<and> \<bar>of_nat g - of_nat b :: number\<bar> < 20"

text \<open>
  The body of the loop of \<^verbatim>\<open>assessDamage\<close>: four \<^verbatim>\<open>if\<close> statements in a row, none of them
  an \<^verbatim>\<open>else\<close>, each incrementing \<open>damagedPixels\<close>.
\<close>

definition damageStep :: "nat \<Rightarrow> nat \<Rightarrow> nat \<Rightarrow> nat \<Rightarrow> nat" where
  "damageStep r g b damagedPixels =
     (let d1 = (if isYellowing r g b then damagedPixels + 1 else damagedPixels);
          d2 = (if isBrowning r g b then d1 + 1 else d1);
          d3 = (if isWilting r g b then d2 + 1 else d2);
          d4 = (if isWhitePatch r g b then d3 + 1 else d3)
      in d4)"

fun damageLoop :: "nat list \<Rightarrow> nat \<Rightarrow> nat" where
  "damageLoop (r # g # b # rest) damagedPixels =
     damageLoop (tl rest) (damageStep r g b damagedPixels)"
| "damageLoop _ damagedPixels = damagedPixels"

record DamageAnalysis =
  dm_hasDamage :: bool
  dm_percentage :: number

definition assessDamage :: "ImageData \<Rightarrow> DamageAnalysis" where
  "assessDamage imageData =
     (let totalPixels = width imageData * height imageData;
          damagedPixels = damageLoop (data imageData) 0;
          damagePercentage = fmul (fdiv (of_nat damagedPixels) (of_nat totalPixels)) 100;
          hasDamage = (damagePercentage > fl (5 / 10))
      in \<lparr> dm_hasDamage = hasDamage,
           dm_percentage = fdiv (of_int (Math_round (fmul damagePercentage 100))) 100 \<rparr>)"

section \<open>Health score\<close>

definition calculateHealthScore :: "BlackSpotAnalysis \<Rightarrow> DamageAnalysis \<Rightarrow> int" where
  "calculateHealthScore blackSpots damage =
     (let healthScore0 = (100 :: number);
          healthScore1 = (if bs_hasBlackSpots blackSpots
                          then fsub healthScore0 (min (fmul (bs_percentage blackSpots) 3) 40)
                          else healthScore0);
          healthScore2 = (if dm_hasDamage damage
                          then fsub healthScore1 (min (fmul (dm_percentage damage) 2) 50)
                          else healthScore1);
          healthScore3 = (if bs_percentage blackSpots > 5 \<and> dm_percentage damage > 10
                          then fsub healthScore2 15
                          else healthScore2)
      in max 0 (Math_round healthScore3))"

section \<open>Image quality\<close>

text \<open>
  The body of the two nested loops of \<^verbatim>\<open>assessImageQuality\<close> at row \<open>y\<close> and column \<open>x\<close>;
  the state is the pair \<open>(edgePixels, totalContrast)\<close>.
\<close>

definition qualityStep :: "ImageData \<Rightarrow> nat \<Rightarrow> nat \<Rightarrow> nat \<times> number \<Rightarrow> nat \<times> number" where
  "qualityStep imageData y x acc =
     (let d = data imageData; w = width imageData;
          idx = (y * w + x) * 4;
          current =
            fdiv (of_nat (d ! idx) + of_nat (d ! (idx + 1)) + of_nat (d ! (idx + 2))) 3;
          right =
            fdiv (of_nat (d ! (idx + 4)) + of_nat (d ! (idx + 5)) + of_nat (d ! (idx + 6))) 3;
          bottom =
            fdiv (of_nat (d ! ((y + 1) * w * 4 + x * 4)) +
                  of_nat (d ! ((y + 1) * w * 4 + x * 4 + 1)) +
                  of_nat (d ! ((y + 1) * w * 4 + x * 4 + 2))) 3;
          contrast = fadd \<bar>fsub current right\<bar> \<bar>fsub current bottom\<bar>
      in (if contrast > 30 then fst acc + 1 else fst acc, fadd (snd acc) contrast))"

text \<open>
  \<^verbatim>\<open>for (let y = 1; y < height - 1; y++) for (let x = 1; x < width - 1; x++)\<close>. With a
  height or width of 0 the bound is \<open>-1\<close> in the source and 0 here; the loop is empty
  in both.
\<close>

definition qualityLoop :: "ImageData \<Rightarrow> nat \<times> number" where
  "qualityLoop imageData =
     fold (\<lambda>y. fold (\<lambda>x. qualityStep imageData y x) [1 ..< width imageData - 1])
       [1 ..< height imageData - 1] (0, 0)"

definition assessImageQuality :: "ImageData \<Rightarrow> number" where
  "assessImageQuality imageData =
     (let (edgePixels, totalContrast) = qualityLoop imageData;
          sharpness =
            fmul (fdiv (of_nat edgePixels) (of_nat (width imageData * height imageData))) 100;
          avgContrast = fdiv totalContrast (of_nat (width imageData * height imageData));
          qualityScore0 = (50 :: number);
          qualityScore1 = fadd qualityScore0 (min (fmul sharpness 2) 30);
          qualityScore2 = fadd qualityScore1 (min (fdiv avgContrast 5) 20)
      in min qualityScore2 95)"

section \<open>Condition, issues and the analysis result\<close>

datatype condition = healthy | mild_damage | moderate_damage | severe_damage | critical

definition determineOverallCondition :: "int \<Rightarrow> bool \<Rightarrow> bool \<Rightarrow> condition" where
  "determineOverallCondition healthScore hasBlackSpots hasDamage =
     (if healthScore \<ge> 85 \<and> \<not> hasBlackSpots \<and> \<not> hasDamage then healthy
      else if healthScore \<ge> 70 then mild_damage
      else if healthScore \<ge> 50 then moderate_damage
      else if healthScore \<ge> 30 then severe_damage
      else critical)"

text \<open>
  \<^verbatim>\<open>x.toFixed(1)\<close> prints the multiple of a tenth nearest to the value of \<open>x\<close>, a tie going
  away from zero; \<open>toFixed1\<close> is the number of tenths.
\<close>

definition toFixed1 :: "number \<Rightarrow> int" where
  "toFixed1 x = (if x < 0 then - \<lfloor>- x * 10 + 1 / 2\<rfloor> else \<lfloor>x * 10 + 1 / 2\<rfloor>)"

text \<open>
  The messages of \<^verbatim>\<open>generateIssuesList\<close>, each with the number its template prints: the
  tenths of a percentage, or the spot count.
\<close>

datatype issue =
    SevereBlackSpotInfestation int
  | ModerateBlackSpotPresence int
  | MinorBlackSpots int
  | ExtensiveLeafDamage int
  | ModerateLeafDamage int
  | MinorLeafDamage int
  | SevereStress
  | NoSignificantIssues

definition generateIssuesList :: "BlackSpotAnalysis \<Rightarrow> DamageAnalysis \<Rightarrow> int \<Rightarrow> issue list" where
  "generateIssuesList blackSpots damage healthScore =
     (let issues1 =
            (if bs_hasBlackSpots blackSpots
             then (if bs_percentage blackSpots > 10
                   then [SevereBlackSpotInfestation (toFixed1 (bs_percentage blackSpots))]
                   else if bs_percentage blackSpots > 3
                   then [ModerateBlackSpotPresence (toFixed1 (bs_percentage blackSpots))]
                   else [MinorBlackSpots (bs_count blackSpots)])
             else []);
          issues2 =
            (if dm_hasDamage damage
             then issues1 @
                  (if dm_percentage damage > 20
                   then [ExtensiveLeafDamage (toFixed1 (dm_percentage damage))]
                   else if dm_percentage damage > 10
                   then [ModerateLeafDamage (toFixed1 (dm_percentage damage))]
                   else [MinorLeafDamage (toFixed1 (dm_percentage damage))])
             else issues1);
          issues3 = (if healthScore < 50 then issues2 @ [SevereStress] else issues2)
      in if length issues3 = 0 then issues3 @ [NoSignificantIssues] else issues3)"

record ImageAnalysisResult =
  hasBlackSpots :: bool
  blackSpotCount :: int
  blackSpotPercentage :: number
  hasDamage :: bool
  damagePercentage :: number
  healthScore :: int
  overallCondition :: condition
  detectedIssues :: "issue list"
  confidence :: number
  imageQuality :: number
  analysisTime :: number

text \<open>
  \<^verbatim>\<open>analyzeImage\<close> after \<^verbatim>\<open>loadImageData\<close>. The two readings of the environment are
  arguments: \<open>random\<close> is the value of \<^verbatim>\<open>Math.random()\<close> and \<open>elapsed\<close> the seconds between
  the two readings of the clock.
\<close>

definition analyzeImage :: "ImageData \<Rightarrow> number \<Rightarrow> number \<Rightarrow> ImageAnalysisResult" where
  "analyzeImage imageData random elapsed =
     (let blackSpotAnalysis = detectBlackSpots imageData;
          damageAnalysis = assessDamage imageData;
          healthScore' = calculateHealthScore blackSpotAnalysis damageAnalysis;
          imageQuality' = assessImageQuality imageData;
          overallCondition' =
            determineOverallCondition healthScore'
              (bs_hasBlackSpots blackSpotAnalysis) (dm_hasDamage damageAnalysis);
          detectedIssues' = generateIssuesList blackSpotAnalysis damageAnalysis healthScore'
      in \<lparr> hasBlackSpots = bs_hasBlackSpots blackSpotAnalysis,
           blackSpotCount = bs_count blackSpotAnalysis,
           blackSpotPercentage = bs_percentage blackSpotAnalysis,
           hasDamage = dm_hasDamage damageAnalysis,
           damagePercentage = dm_percentage damageAnalysis,
           healthScore = healthScore',
           overallCondition = overallCondition',
           detectedIssues = detectedIssues',
           confidence = min (fadd 90 (fmul random 8)) 98,
           imageQuality = imageQuality',
           analysisTime = elapsed \<rparr>)"

section \<open>Plant health assessment\<close>

datatype urgency_level = urgency_none | urgency_low | urgency_medium | urgency_high | urgency_critical

text \<open>
  The recommendation texts are those of the source without the emoji each one starts with.
\<close>

record PlantHealthAssessment =
  isHealthy :: bool
  condition :: string
  healthPercentage :: int
  recommendations :: "string list"
  urgency :: urgency_level

definition assessPlantHealth :: "ImageAnalysisResult \<Rightarrow> PlantHealthAssessment" where
  "assessPlantHealth analysisResult =
     (if healthScore analysisResult \<ge> 85 \<and> \<not> hasBlackSpots analysisResult
         \<and> \<not> hasDamage analysisResult
      then \<lparr> isHealthy = True,
             condition = ''Excellent Health - No Issues Detected'',
             healthPercentage = healthScore analysisResult,
             recommendations =
               [''Plant appears perfectly healthy'',
                ''Continue current care routine'',
                ''Monitor regularly for early detection'',
                ''Maintain proper nutrition and watering''],
             urgency = urgency_none \<rparr>
      else if healthScore analysisResult \<ge> 70
         \<and> (\<not> hasBlackSpots analysisResult \<or> blackSpotPercentage analysisResult < 5)
      then \<lparr> isHealthy = True,
             condition = ''Good Health - Minor Issues'',
             healthPercentage = healthScore analysisResult,
             recommendations =
               [''Plant is mostly healthy with minor stress signs'',
                ''Increase monitoring frequency'',
                ''Check watering and nutrition levels'',
                ''Ensure proper air circulation''],
             urgency = urgency_low \<rparr>
      else if healthScore analysisResult \<ge> 50
         \<and> (blackSpotPercentage analysisResult < 15 \<or> damagePercentage analysisResult < 20)
      then \<lparr> isHealthy = False,
             condition = ''Moderate Issues - Action Needed'',
             healthPercentage = healthScore analysisResult,
             recommendations =
               [''Disease symptoms detected - treat promptly'',
                ''Remove affected leaves if possible'',
                ''Apply appropriate fungicide'',
                ''Improve growing conditions''],
             urgency = urgency_medium \<rparr>
      else if healthScore analysisResult \<ge> 30
         \<and> (blackSpotPercentage analysisResult < 30 \<or> damagePercentage analysisResult < 40)
      then \<lparr> isHealthy = False,
             condition = ''Severe Disease - Immediate Action Required'',
             healthPercentage = healthScore analysisResult,
             recommendations =
               [''Severe disease detected - treat immediately'',
                ''Isolate plant from healthy ones'',
                ''Apply systemic treatment'',
                ''Consider professional consultation''],
             urgency = urgency_high \<rparr>
      else \<lparr> isHealthy = False,
             condition = ''Critical Condition - Emergency Treatment'',
             healthPercentage = healthScore analysisResult,
             recommendations =
               [''Plant in critical condition'',
                ''Emergency treatment required'',
                ''May need complete removal'',
                ''Consult agricultural expert immediately''],
             urgency = urgency_critical \<rparr>)"

section \<open>Disease selection\<close>

text \<open>
  \<^verbatim>\<open>DiseaseInfo\<close> of \<^verbatim>\<open>src/pages/DiseaseScanner.tsx\<close>. A field that some table entries leave
  out is an \<open>option\<close>. The two fields \<^verbatim>\<open>weatherConditions\<close> and \<^verbatim>\<open>treatmentCost\<close> are display
  texts with a degree or a currency sign; they are not part of the record here, and no
  function reads them.
\<close>

record DiseaseInfo =
  name :: string
  confidence :: number
  severity :: string
  treatments :: "string list"
  prevention :: "string list"
  description :: string
  cause :: string
  spreads :: string
  accuracy :: "number option"
  detectionTime :: "number option"
  cropType :: "string option"
  affectedArea :: "string option"
  urgency :: "urgency_level option"
  economicImpact :: "string option"
  recoveryTime :: "string option"

definition blackSpotDisease :: DiseaseInfo where
  "blackSpotDisease =
     \<lparr> name = ''Black Spot Disease'',
       DiseaseInfo.confidence = fl (95 / 100),
       severity = ''severe'',
       treatments =
         [''Remove affected leaves immediately and dispose safely'',
          ''Apply copper-based fungicide (Bordeaux mixture) weekly'',
          ''Improve air circulation around plants'',
          ''Reduce humidity levels around plant'',
          ''Apply systemic fungicide for severe cases''],
       prevention =
         [''Maintain proper plant spacing for air flow'',
          ''Avoid overhead watering - water at soil level'',
          ''Remove fallen leaves regularly'',
          ''Apply preventive fungicide during humid seasons''],
       description =
         ''Fungal disease characterized by circular black or dark brown spots on leaves, often with yellow halos.'',
       cause =
         ''Fungal pathogens (Alternaria, Septoria species)'',
       spreads =
         ''Water droplets, wind, contaminated tools, infected plant debris'',
       accuracy = Some (fl (95 / 100)),
       detectionTime = Some (fl (6 / 10)),
       cropType = Some ''Multiple crops (roses, tomatoes, peppers, etc.)'',
       affectedArea = Some ''Primarily leaves, can spread to stems and fruits'',
       DiseaseInfo.urgency = Some urgency_high,
       economicImpact = Some ''30-60% yield loss if untreated'',
       recoveryTime = Some ''2-4 weeks with proper treatment'' \<rparr>"

definition powderyMildew :: DiseaseInfo where
  "powderyMildew =
     \<lparr> name = ''Powdery Mildew'',
       DiseaseInfo.confidence = fl (85 / 100),
       severity = ''moderate'',
       treatments =
         [''Apply sulfur-based fungicide (2-3g per liter)'',
          ''Use neem oil spray every 7-10 days (organic option)'',
          ''Improve air circulation around plants (3-4 feet spacing)'',
          ''Remove affected leaves and dispose safely away from garden'',
          ''Apply potassium bicarbonate solution (5g per liter weekly)''],
       prevention =
         [''Ensure proper plant spacing'',
          ''Avoid overhead watering'',
          ''Regular pruning for air flow'',
          ''Choose resistant varieties''],
       description =
         ''White powdery coating on leaves, stems, and fruits that reduces photosynthesis and plant vigor.'',
       cause =
         ''Various fungi species (Erysiphe, Podosphaera)'',
       spreads =
         ''Airborne spores, wind dispersal, contaminated tools'',
       accuracy = Some (fl (89 / 100)),
       detectionTime = Some (fl (12 / 10)),
       cropType = Some ''Multiple crops (tomato, cucumber, roses)'',
       affectedArea = Some ''Leaves, stems, fruits'',
       DiseaseInfo.urgency = Some urgency_medium,
       economicImpact = Some ''15-25% yield loss if untreated'',
       recoveryTime = Some ''2-3 weeks with proper treatment'' \<rparr>"

definition bacterialLeafSpot :: DiseaseInfo where
  "bacterialLeafSpot =
     \<lparr> name = ''Bacterial Leaf Spot'',
       DiseaseInfo.confidence = fl (88 / 100),
       severity = ''moderate'',
       treatments =
         [''Apply copper bactericide (follow label instructions)'',
          ''Remove infected plant material immediately'',
          ''Improve drainage to prevent waterlogging'',
          ''Use drip irrigation instead of sprinklers'',
          ''Apply streptomycin (if available)''],
       prevention =
         [''Use pathogen-free seeds'',
          ''Avoid working in wet fields'',
          ''Sanitize tools between plants'',
          ''Maintain proper field hygiene''],
       description =
         ''Small, dark spots with yellow halos on leaves that can merge and cause defoliation.'',
       cause =
         ''Xanthomonas bacteria'',
       spreads =
         ''Water splash, contaminated tools, insects'',
       accuracy = None,
       detectionTime = None,
       cropType = None,
       affectedArea = None,
       DiseaseInfo.urgency = None,
       economicImpact = None,
       recoveryTime = None \<rparr>"

definition anthracnose :: DiseaseInfo where
  "anthracnose =
     \<lparr> name = ''Anthracnose'',
       DiseaseInfo.confidence = fl (90 / 100),
       severity = ''severe'',
       treatments =
         [''Apply systemic fungicide (propiconazole)'',
          ''Remove and burn infected plant debris'',
          ''Improve air circulation and drainage'',
          ''Use copper-based protective sprays'',
          ''Harvest fruits early if infection spreads''],
       prevention =
         [''Plant certified disease-free seeds'',
          ''Practice crop rotation (3-4 years)'',
          ''Maintain field sanitation'',
          ''Avoid overhead irrigation''],
       description =
         ''Circular, sunken lesions with dark centers on fruits, leaves, and stems.'',
       cause =
         ''Colletotrichum fungi species'',
       spreads =
         ''Rain splash, contaminated seeds, tools'',
       accuracy = None,
       detectionTime = None,
       cropType = None,
       affectedArea = None,
       DiseaseInfo.urgency = None,
       economicImpact = None,
       recoveryTime = None \<rparr>"

definition downyMildew :: DiseaseInfo where
  "downyMildew =
     \<lparr> name = ''Downy Mildew'',
       DiseaseInfo.confidence = fl (87 / 100),
       severity = ''severe'',
       treatments =
         [''Apply systemic fungicide (metalaxyl)'',
          ''Use copper-based protective fungicides'',
          ''Improve field drainage immediately'',
          ''Remove lower leaves touching soil'',
          ''Apply phosphorous acid-based products''],
       prevention =
         [''Use resistant varieties'',
          ''Ensure proper plant spacing'',
          ''Avoid dense plantings'',
          ''Morning irrigation to allow drying''],
       description =
         ''Yellow patches on upper leaf surface with grayish-white growth underneath.'',
       cause =
         ''Peronospora or Plasmopara species'',
       spreads =
         ''Airborne spores, water splash'',
       accuracy = None,
       detectionTime = None,
       cropType = None,
       affectedArea = None,
       DiseaseInfo.urgency = None,
       economicImpact = None,
       recoveryTime = None \<rparr>"

definition fusariumWilt :: DiseaseInfo where
  "fusariumWilt =
     \<lparr> name = ''Fusarium Wilt'',
       DiseaseInfo.confidence = fl (93 / 100),
       severity = ''severe'',
       treatments =
         [''No cure - focus on prevention and management'',
          ''Remove and destroy infected plants'',
          ''Soil solarization during off-season'',
          ''Apply beneficial microorganisms (Trichoderma)'',
          ''Use soil amendments (organic matter)''],
       prevention =
         [''Plant resistant varieties (most important)'',
          ''Practice 4-5 year crop rotation'',
          ''Maintain proper soil pH (6.0-7.0)'',
          ''Avoid root damage during cultivation''],
       description =
         ''Soil-borne disease causing yellowing, wilting, and death of plants from bottom up.'',
       cause =
         ''Fusarium oxysporum fungus'',
       spreads =
         ''Contaminated soil, tools, water'',
       accuracy = None,
       detectionTime = None,
       cropType = None,
       affectedArea = None,
       DiseaseInfo.urgency = None,
       economicImpact = None,
       recoveryTime = None \<rparr>"

definition comprehensiveDiseases :: "DiseaseInfo list" where
  "comprehensiveDiseases =
     [blackSpotDisease,
      powderyMildew,
      bacterialLeafSpot,
      anthracnose,
      downyMildew,
      fusariumWilt]"

text \<open>The object literal of the fourth branch of \<^verbatim>\<open>selectDiseaseBasedOnAnalysis\<close>.\<close>

definition healthyPlant :: "ImageAnalysisResult \<Rightarrow> DiseaseInfo" where
  "healthyPlant analysisResult =
     \<lparr> name = ''Healthy Plant'',
       DiseaseInfo.confidence = fl (95 / 100),
       severity = ''none'',
       treatments =
         [''Continue current care routine'',
          ''Monitor regularly'',
          ''Maintain proper nutrition''],
       prevention =
         [''Regular watering'',
          ''Balanced fertilization'',
          ''Good air circulation''],
       description =
         ''Plant appears healthy with no significant disease symptoms detected.'',
       cause = ''No disease detected'',
       spreads = ''Not applicable'',
       accuracy = Some (fl (95 / 100)),
       detectionTime = Some (analysisTime analysisResult),
       cropType = Some ''General'',
       affectedArea = Some ''None'',
       DiseaseInfo.urgency = Some urgency_none,
       economicImpact = Some ''No impact - healthy plant'',
       recoveryTime = Some ''Not applicable'' \<rparr>"

definition selectDiseaseBasedOnAnalysis :: "ImageAnalysisResult \<Rightarrow> DiseaseInfo" where
  "selectDiseaseBasedOnAnalysis analysisResult =
     (if hasBlackSpots analysisResult \<and> blackSpotPercentage analysisResult > 2
      then (comprehensiveDiseases ! 0)
             \<lparr> DiseaseInfo.confidence :=
                 min (fl (95 / 100)) (fdiv (ImageAnalysisResult.confidence analysisResult) 100) \<rparr>
      else if hasDamage analysisResult \<and> damagePercentage analysisResult > 10
      then (comprehensiveDiseases ! 1)
             \<lparr> DiseaseInfo.confidence :=
                 min (fl (88 / 100)) (fdiv (ImageAnalysisResult.confidence analysisResult) 100) \<rparr>
      else if healthScore analysisResult < 60
      then (comprehensiveDiseases ! 2)
             \<lparr> DiseaseInfo.confidence :=
                 min (fl (82 / 100)) (fdiv (ImageAnalysisResult.confidence analysisResult) 100) \<rparr>
      else if healthScore analysisResult \<ge> 85
      then healthyPlant analysisResult
      else (comprehensiveDiseases ! 1)
             \<lparr> DiseaseInfo.confidence :=
                 min (fl (75 / 100)) (fdiv (ImageAnalysisResult.confidence analysisResult) 100) \<rparr>)"

section \<open>Reference definitions\<close>

text \<open>
  The definitions of this section are not translations of source functions. They state
  what the specification says in its own terms, for comparison with the functions above.
\<close>


text \<open>The pixels of an image as a list of \<open>(r, g, b)\<close> triples, in array order.\<close>

fun rgbPixels :: "nat list \<Rightarrow> (nat \<times> nat \<times> nat) list" where
  "rgbPixels (r # g # b # rest) = (r, g, b) # rgbPixels (tl rest)"
| "rgbPixels _ = []"

text \<open>The number of pixels that meet the black-spot test.\<close>

definition blackSpotPixelCountSpec :: "ImageData \<Rightarrow> nat" where
  "blackSpotPixelCountSpec img =
     length (filter (\<lambda>(r, g, b).
        (of_nat r + of_nat g + of_nat b) / 3 < (60 :: rat) \<and>
        \<bar>of_nat r - of_nat g\<bar> + \<bar>of_nat g - of_nat b\<bar> + \<bar>of_nat b - of_nat r\<bar> < (30 :: rat))
      (rgbPixels (data img)))"

text \<open>The number of damage conditions one pixel meets, and the sum over all pixels.\<close>

definition damageMatchesSpec :: "nat \<times> nat \<times> nat \<Rightarrow> nat" where
  "damageMatchesSpec p =
     (case p of (r, g, b) \<Rightarrow>
        (let br = (of_nat r + of_nat g + of_nat b) / (3 :: rat) in
         of_bool (r > 180 \<and> g > 150 \<and> b < 100 \<and> br > 150) +
         of_bool (100 < r \<and> r < 180 \<and> 50 < g \<and> g < 130 \<and> b < 80 \<and> br < 150) +
         of_bool (of_nat g < fmul (of_nat r) (fl (7 / 10)) \<and>
                  of_nat g < fmul (of_nat b) (fl (8 / 10)) \<and> br < 120) +
         of_bool (br > 200 \<and> \<bar>of_nat r - of_nat g :: rat\<bar> < 20
                  \<and> \<bar>of_nat g - of_nat b :: rat\<bar> < 20)))"

definition damageTallySpec :: "ImageData \<Rightarrow> nat" where
  "damageTallySpec img = sum_list (map damageMatchesSpec (rgbPixels (data img)))"

text \<open>Rounding to two decimals.\<close>

definition roundTo2 :: "rat \<Rightarrow> rat" where
  "roundTo2 x = fdiv (of_int (round (fmul x 100))) 100"

text \<open>
  An analysis result with the given flags, percentages and score, for use as a sample
  input; its condition is the one \<open>determineOverallCondition\<close> gives.
\<close>

definition sampleResult ::
  "bool \<Rightarrow> number \<Rightarrow> bool \<Rightarrow> number \<Rightarrow> int \<Rightarrow> ImageAnalysisResult" where
  "sampleResult spots spotPct damaged damagePct score =
     \<lparr> hasBlackSpots = spots, blackSpotCount = (if spots then 1 else 0),
       blackSpotPercentage = spotPct, hasDamage = damaged, damagePercentage = damagePct,
       healthScore = score,
       overallCondition = determineOverallCondition score spots damaged,
       detectedIssues = [], confidence = 94, imageQuality = 50, analysisTime = 1 \<rparr>"

section \<open>Properties of double arithmetic\<close>

subsection \<open>rne\<close>

lemma rne_of_int: "rne (of_int k) = k"
  by (simp add: rne_def)

lemma rne_cases:
  "rne x = \<lfloor>x\<rfloor> \<and> x - of_int \<lfloor>x\<rfloor> \<le> 1 / 2 \<or> rne x = \<lfloor>x\<rfloor> + 1 \<and> 1 / 2 \<le> x - of_int \<lfloor>x\<rfloor>"
  by (auto simp: rne_def Let_def)

lemma rne_eqI:
  assumes "\<bar>x - of_int m\<bar> < 1 / 2"
  shows "rne x = m"
proof -
  have a: "of_int m - 1 / 2 < x" "x < of_int m + 1 / 2" using assms by linarith+
  show ?thesis
  proof (cases "of_int m \<le> x")
    case True
    then have f: "\<lfloor>x\<rfloor> = m" using a by (intro floor_unique) simp_all
    show ?thesis using a by (simp add: rne_def Let_def f)
  next
    case False
    then have f: "\<lfloor>x\<rfloor> = m - 1" using a by (intro floor_unique) simp_all
    show ?thesis using a False by (simp add: rne_def Let_def f)
  qed
qed

lemma rne_tie:
  assumes "\<bar>x - of_int m\<bar> = 1 / 2" and "even m"
  shows "rne x = m"
proof (cases "of_int m \<le> x")
  case True
  then have x: "x = of_int m + 1 / 2" using assms(1) by linarith
  have f: "\<lfloor>x\<rfloor> = m" unfolding x by (intro floor_unique) simp_all
  show ?thesis using assms(2) by (simp add: rne_def Let_def f) (simp add: x)
next
  case False
  then have x: "x = of_int m - 1 / 2" using assms(1) by linarith
  have f: "\<lfloor>x\<rfloor> = m - 1" unfolding x by (intro floor_unique) simp_all
  show ?thesis using assms(2) by (simp add: rne_def Let_def f) (simp add: x)
qed

lemma rne_mono:
  assumes "x \<le> y"
  shows "rne x \<le> rne y"
proof (cases "\<lfloor>x\<rfloor> = \<lfloor>y\<rfloor>")
  case True
  then have "x - of_int \<lfloor>x\<rfloor> \<le> y - of_int \<lfloor>y\<rfloor>" using assms by simp
  then show ?thesis using True by (auto simp: rne_def Let_def)
next
  case False
  then have "\<lfloor>x\<rfloor> < \<lfloor>y\<rfloor>" using floor_mono [OF assms] by simp
  moreover have "rne x \<le> \<lfloor>x\<rfloor> + 1" using rne_cases [of x] by auto
  moreover have "\<lfloor>y\<rfloor> \<le> rne y" using rne_cases [of y] by auto
  ultimately show ?thesis by simp
qed

lemma rne_le_int: "x \<le> of_int k \<Longrightarrow> rne x \<le> k"
  using rne_mono [of x "of_int k"] by (simp add: rne_of_int)

lemma rne_ge_int: "of_int k \<le> x \<Longrightarrow> k \<le> rne x"
  using rne_mono [of "of_int k" x] by (simp add: rne_of_int)

subsection \<open>binade\<close>

lemma binade_bounds:
  assumes "0 < x"
  shows "2 powi binade x \<le> x" and "x < 2 powi (binade x + 1)"
proof -
  show "2 powi binade x \<le> x"
  proof (cases "1 \<le> x")
    case True
    then have n: "0 < \<lfloor>x\<rfloor>" by simp
    from bitlen_bounds [OF n] have "2 ^ nat (bitlen \<lfloor>x\<rfloor> - 1) \<le> \<lfloor>x\<rfloor>" ..
    then have "(of_int (2 ^ nat (bitlen \<lfloor>x\<rfloor> - 1)) :: rat) \<le> of_int \<lfloor>x\<rfloor>"
      by (simp only: of_int_le_iff)
    also have "\<dots> \<le> x" by simp
    finally have "(2 :: rat) ^ nat (bitlen \<lfloor>x\<rfloor> - 1) \<le> x" by simp
    moreover have "0 \<le> bitlen \<lfloor>x\<rfloor> - 1" using n by (simp add: bitlen_alt_def)
    ultimately show ?thesis using True by (simp add: binade_def power_int_nonneg_exp)
  next
    case False
    then have x1: "x < 1" by simp
    then have "1 < 1 / x" using assms by simp
    then have m: "2 \<le> \<lceil>1 / x\<rceil>" by linarith
    then have j: "0 < \<lceil>1 / x\<rceil> - 1" by simp
    from bitlen_bounds [OF j] have "\<lceil>1 / x\<rceil> - 1 < 2 ^ nat (bitlen (\<lceil>1 / x\<rceil> - 1))" ..
    then have "\<lceil>1 / x\<rceil> \<le> 2 ^ nat (bitlen (\<lceil>1 / x\<rceil> - 1))" by simp
    then have "(of_int \<lceil>1 / x\<rceil> :: rat) \<le> of_int (2 ^ nat (bitlen (\<lceil>1 / x\<rceil> - 1)))"
      by (simp only: of_int_le_iff)
    then have "(of_int \<lceil>1 / x\<rceil> :: rat) \<le> 2 ^ nat (bitlen (\<lceil>1 / x\<rceil> - 1))" by simp
    then have "1 / x \<le> 2 ^ nat (bitlen (\<lceil>1 / x\<rceil> - 1))"
      using le_of_int_ceiling [of "1 / x"] by (rule order_trans [rotated])
    then have "1 / 2 ^ nat (bitlen (\<lceil>1 / x\<rceil> - 1)) \<le> x"
      using assms by (simp add: field_simps)
    moreover have "0 \<le> bitlen (\<lceil>1 / x\<rceil> - 1)" by (rule bitlen_nonneg)
    ultimately show ?thesis using False
      by (simp add: binade_def power_int_minus_divide power_int_nonneg_exp)
  qed
  show "x < 2 powi (binade x + 1)"
  proof (cases "1 \<le> x")
    case True
    then have n: "0 < \<lfloor>x\<rfloor>" by simp
    from bitlen_bounds [OF n] have "\<lfloor>x\<rfloor> < 2 ^ nat (bitlen \<lfloor>x\<rfloor>)" ..
    then have "\<lfloor>x\<rfloor> + 1 \<le> 2 ^ nat (bitlen \<lfloor>x\<rfloor>)" by simp
    then have "(of_int (\<lfloor>x\<rfloor> + 1) :: rat) \<le> of_int (2 ^ nat (bitlen \<lfloor>x\<rfloor>))"
      by (simp only: of_int_le_iff)
    moreover have "x < of_int (\<lfloor>x\<rfloor> + 1)" by linarith
    ultimately have "x < 2 ^ nat (bitlen \<lfloor>x\<rfloor>)" by simp
    moreover have "0 \<le> bitlen \<lfloor>x\<rfloor>" by (rule bitlen_nonneg)
    ultimately show ?thesis using True by (simp add: binade_def power_int_nonneg_exp)
  next
    case False
    then have x1: "x < 1" by simp
    then have "1 < 1 / x" using assms by simp
    then have m: "2 \<le> \<lceil>1 / x\<rceil>" by linarith
    then have j: "0 < \<lceil>1 / x\<rceil> - 1" by simp
    define k where "k = bitlen (\<lceil>1 / x\<rceil> - 1)"
    have k1: "1 \<le> k" using j by (simp add: k_def bitlen_alt_def)
    from bitlen_bounds [OF j] have "2 ^ nat (k - 1) \<le> \<lceil>1 / x\<rceil> - 1" unfolding k_def ..
    then have "(of_int (2 ^ nat (k - 1)) :: rat) \<le> of_int (\<lceil>1 / x\<rceil> - 1)"
      by (simp only: of_int_le_iff)
    moreover have "of_int (\<lceil>1 / x\<rceil> - 1) < 1 / x" using of_int_ceiling_diff_one_le [of "1 / x"]
      by linarith
    ultimately have "2 ^ nat (k - 1) < 1 / x" by simp
    then have "x < 1 / 2 ^ nat (k - 1)" using assms by (simp add: field_simps)
    moreover have "(2 :: rat) powi (- k + 1) = 1 / 2 ^ nat (k - 1)"
      using k1 power_int_minus_divide [of "2 :: rat" "k - 1"] by (simp add: power_int_nonneg_exp)
    ultimately show ?thesis using False by (simp add: binade_def k_def [symmetric])
  qed
qed

lemma pow2_less_cancel:
  assumes "(2 :: rat) powi a < 2 powi b"
  shows "a < b"
proof (rule ccontr)
  assume "\<not> a < b"
  then have "b \<le> a" by simp
  then have "(2 :: rat) powi b \<le> 2 powi a" by (intro power_int_increasing) simp_all
  with assms show False by simp
qed

lemma binade_unique:
  assumes "0 < x" and "2 powi e \<le> x" and "x < 2 powi (e + 1)"
  shows "binade x = e"
proof -
  have "(2 :: rat) powi e < 2 powi (binade x + 1)"
    using assms(2) binade_bounds(2) [OF assms(1)] by simp
  then have "e < binade x + 1" by (rule pow2_less_cancel)
  moreover have "(2 :: rat) powi binade x < 2 powi (e + 1)"
    using assms(3) binade_bounds(1) [OF assms(1)] by simp
  then have "binade x < e + 1" by (rule pow2_less_cancel)
  ultimately show ?thesis by simp
qed

lemma binade_mono:
  assumes "0 < x" and "x \<le> y"
  shows "binade x \<le> binade y"
proof -
  have "(2 :: rat) powi binade x < 2 powi (binade y + 1)"
    using binade_bounds(1) [OF assms(1)] binade_bounds(2) [of y] assms by simp
  then have "binade x < binade y + 1" by (rule pow2_less_cancel)
  then show ?thesis by simp
qed

subsection \<open>fl\<close>

lemma pow2_pos: "0 < (2 :: rat) powi e"
  by (simp add: zero_less_power_int)

lemma pow2_quot: "(2 :: rat) powi a / 2 powi b = 2 powi (a - b)"
  by (simp add: power_int_diff)

lemma pow2_add: "(2 :: rat) powi a * 2 powi b = 2 powi (a + b)"
  by (simp add: power_int_add)

lemma pow2_mono: "a \<le> b \<Longrightarrow> (2 :: rat) powi a \<le> 2 powi b"
  by (intro power_int_increasing) simp_all

lemma fl_0: "fl 0 = 0"
  by (simp add: fl_def)

lemma fl_minus: "fl (- x) = - fl x"
  by (simp add: fl_def Let_def)

lemma fl_pos_unfold:
  assumes "0 < x"
  shows "fl x = of_int (rne (x / 2 powi (max (binade x) (- 1022) - 52)))
                  * 2 powi (max (binade x) (- 1022) - 52)"
  using assms by (simp add: fl_def Let_def)

lemma fl_nonneg_pos: "0 < x \<Longrightarrow> 0 \<le> fl x"
proof -
  assume x: "0 < x"
  have "0 \<le> x / 2 powi (max (binade x) (- 1022) - 52)" using x pow2_pos by (simp add: less_imp_le)
  then have "0 \<le> rne (x / 2 powi (max (binade x) (- 1022) - 52))"
    using rne_ge_int [of 0] by simp
  then show ?thesis using pow2_pos [of "max (binade x) (- 1022) - 52"]
    by (simp add: fl_pos_unfold [OF x] less_imp_le)
qed

lemma fl_mono_pos:
  assumes a: "0 < a" and ab: "a \<le> b"
  shows "fl a \<le> fl b"
proof -
  have b: "0 < b" using a ab by simp
  define ea where "ea = max (binade a) (- 1022)"
  define eb where "eb = max (binade b) (- 1022)"
  define ua where "ua = (2 :: rat) powi (ea - 52)"
  define ub where "ub = (2 :: rat) powi (eb - 52)"
  have ua: "0 < ua" and ub: "0 < ub" by (simp_all add: ua_def ub_def pow2_pos)
  have fa: "fl a = of_int (rne (a / ua)) * ua"
    unfolding ua_def ea_def by (rule fl_pos_unfold [OF a])
  have fb: "fl b = of_int (rne (b / ub)) * ub"
    unfolding ub_def eb_def by (rule fl_pos_unfold [OF b])
  have le: "ea \<le> eb" using binade_mono [OF a ab] by (simp add: ea_def eb_def)
  show ?thesis
  proof (cases "ea = eb")
    case True
    then have u: "ua = ub" by (simp add: ua_def ub_def)
    have "a / ub \<le> b / ub" using ab ub by (simp add: divide_right_mono less_imp_le)
    then have "rne (a / ub) \<le> rne (b / ub)" by (rule rne_mono)
    then have "(of_int (rne (a / ub)) :: rat) \<le> of_int (rne (b / ub))" by simp
    then show ?thesis unfolding fa fb u using ub by (simp add: mult_right_mono less_imp_le)
  next
    case False
    then have lt: "ea + 1 \<le> eb" using le by simp
    then have ebb: "eb = binade b" by (simp add: ea_def eb_def max_def split: if_splits)
    have "a < 2 powi (binade a + 1)" by (rule binade_bounds(2) [OF a])
    also have "\<dots> \<le> 2 powi (ea + 1)" by (intro pow2_mono) (simp add: ea_def)
    finally have "a / ua < 2 powi (ea + 1) / ua" using ua by (simp add: divide_strict_right_mono)
    also have "\<dots> = 2 powi 53" unfolding ua_def pow2_quot by simp
    finally have "a / ua \<le> of_int (2 ^ 53)" by simp
    then have "rne (a / ua) \<le> 2 ^ 53" by (rule rne_le_int)
    then have "(of_int (rne (a / ua)) :: rat) \<le> of_int (2 ^ 53)" by (simp only: of_int_le_iff)
    then have "of_int (rne (a / ua)) * ua \<le> of_int (2 ^ 53) * ua"
      using ua by (intro mult_right_mono) (simp_all add: less_imp_le)
    also have "of_int (2 ^ 53) * ua = 2 powi 53 * 2 powi (ea - 52)" by (simp add: ua_def)
    also have "\<dots> = 2 powi (53 + (ea - 52))" by (rule pow2_add)
    also have "(2 :: rat) powi (53 + (ea - 52)) = 2 powi (ea + 1)" by (simp add: algebra_simps)
    also have "\<dots> \<le> 2 powi eb" using lt by (rule pow2_mono)
    finally have A: "fl a \<le> 2 powi eb" unfolding fa .
    have "2 powi eb \<le> b" unfolding ebb by (rule binade_bounds(1) [OF b])
    then have "2 powi eb / ub \<le> b / ub" using ub by (simp add: divide_right_mono less_imp_le)
    moreover have "2 powi eb / ub = of_int (2 ^ 52)" unfolding ub_def pow2_quot by simp
    ultimately have "of_int (2 ^ 52) \<le> b / ub" by simp
    then have "2 ^ 52 \<le> rne (b / ub)" by (rule rne_ge_int)
    then have "(of_int (2 ^ 52) :: rat) \<le> of_int (rne (b / ub))" by (simp only: of_int_le_iff)
    then have "of_int (2 ^ 52) * ub \<le> of_int (rne (b / ub)) * ub"
      using ub by (intro mult_right_mono) (simp_all add: less_imp_le)
    moreover have "of_int (2 ^ 52) * ub = 2 powi 52 * 2 powi (eb - 52)" by (simp add: ub_def)
    moreover have "(2 :: rat) powi 52 * 2 powi (eb - 52) = 2 powi eb"
      unfolding pow2_add by simp
    ultimately have "2 powi eb \<le> fl b" unfolding fb by simp
    with A show ?thesis by simp
  qed
qed

lemma fl_nonneg: "0 \<le> x \<Longrightarrow> 0 \<le> fl x"
  by (cases "x = 0") (simp_all add: fl_0 fl_nonneg_pos)

lemma fl_nonpos: "x \<le> 0 \<Longrightarrow> fl x \<le> 0"
  using fl_nonneg [of "- x"] by (simp add: fl_minus)

lemma fl_mono:
  assumes "a \<le> b"
  shows "fl a \<le> fl b"
proof -
  consider "0 < a" | "a \<le> 0" "0 \<le> b" | "b < 0" by linarith
  then show ?thesis
  proof cases
    case 1
    then show ?thesis using assms by (rule fl_mono_pos)
  next
    case 2
    then show ?thesis using fl_nonpos [of a] fl_nonneg [of b] by simp
  next
    case 3
    then have "fl (- b) \<le> fl (- a)" using assms by (intro fl_mono_pos) simp_all
    then show ?thesis by (simp add: fl_minus)
  qed
qed

lemma fl_dyadic_pos:
  assumes m: "0 < m" "m < 2 ^ 53" and k: "- 1074 \<le> k"
  shows "fl (of_int m * 2 powi k) = of_int m * 2 powi k"
proof -
  define x where "x = (of_int m :: rat) * 2 powi k"
  have x: "0 < x" using m pow2_pos by (simp add: x_def)
  define e where "e = max (binade x) (- 1022)"
  have "0 \<le> k - e + 52"
  proof (cases "e = binade x")
    case True
    have "2 powi e \<le> x" unfolding True by (rule binade_bounds(1) [OF x])
    also have "x < of_int (2 ^ 53) * 2 powi k"
      unfolding x_def using m(2) pow2_pos [of k] by (intro mult_strict_right_mono) simp_all
    also have "of_int (2 ^ 53) * 2 powi k = (2 :: rat) powi 53 * 2 powi k" by simp
    also have "\<dots> = 2 powi (53 + k)" by (rule pow2_add)
    finally have "e < 53 + k" by (rule pow2_less_cancel)
    then show ?thesis by simp
  next
    case False
    then have "e = - 1022" by (simp add: e_def max_def split: if_splits)
    then show ?thesis using k by simp
  qed
  then obtain j :: nat where j: "k - e + 52 = int j" using nonneg_int_cases by blast
  have "x / 2 powi (e - 52) = of_int m * (2 powi k / 2 powi (e - 52))" by (simp add: x_def)
  also have "2 powi k / (2 :: rat) powi (e - 52) = 2 powi (int j)"
    unfolding pow2_quot using j by (simp add: algebra_simps)
  also have "of_int m * (2 :: rat) powi (int j) = of_int (m * 2 ^ j)" by simp
  finally have s: "x / 2 powi (e - 52) = of_int (m * 2 ^ j)" .
  have "fl x = of_int (rne (x / 2 powi (e - 52))) * 2 powi (e - 52)"
    unfolding e_def by (rule fl_pos_unfold [OF x])
  also have "\<dots> = of_int (m * 2 ^ j) * 2 powi (e - 52)" by (simp only: s rne_of_int)
  also have "\<dots> = x / 2 powi (e - 52) * 2 powi (e - 52)" by (simp only: s)
  also have "\<dots> = x" using pow2_pos [of "e - 52"] by simp
  finally show ?thesis unfolding x_def .
qed

lemma fl_dyadic:
  assumes "\<bar>m\<bar> < 2 ^ 53" and "- 1074 \<le> k"
  shows "fl (of_int m * 2 powi k) = of_int m * 2 powi k"
proof -
  consider "0 < m" | "m = 0" | "m < 0" by linarith
  then show ?thesis
  proof cases
    case 1
    then show ?thesis using assms by (intro fl_dyadic_pos) simp_all
  next
    case 2
    then show ?thesis by (simp add: fl_0)
  next
    case 3
    then have "fl (of_int (- m) * 2 powi k) = of_int (- m) * 2 powi k"
      using assms by (intro fl_dyadic_pos) simp_all
    then show ?thesis using fl_minus [of "of_int m * 2 powi k"] by simp
  qed
qed

lemma fl_exact:
  assumes "x = of_int m * 2 powi k" and "\<bar>m\<bar> < 2 ^ 53" and "- 1074 \<le> k"
  shows "fl x = x"
  unfolding assms(1) by (rule fl_dyadic [OF assms(2,3)])

lemma fl_of_int: "\<bar>m\<bar> < 2 ^ 53 \<Longrightarrow> fl (of_int m) = of_int m"
  using fl_dyadic [of m 0] by simp

lemma fl_of_nat: "n < 2 ^ 53 \<Longrightarrow> fl (of_nat n) = of_nat n"
  using fl_of_int [of "int n"] by simp

lemma fl_evalI:
  assumes "0 < x" and "2 powi e \<le> x" and "x < 2 powi (e + 1)" and "- 1022 \<le> e"
      and "\<bar>x / 2 powi (e - 52) - of_int m\<bar> < 1 / 2
           \<or> \<bar>x / 2 powi (e - 52) - of_int m\<bar> = 1 / 2 \<and> even m"
      and "y = of_int m * 2 powi (e - 52)"
  shows "fl x = y"
proof -
  have b: "binade x = e" by (rule binade_unique [OF assms(1,2,3)])
  have "max (binade x) (- 1022) = e" using assms(4) by (simp add: b)
  then have "fl x = of_int (rne (x / 2 powi (e - 52))) * 2 powi (e - 52)"
    using fl_pos_unfold [OF assms(1)] by simp
  also have "rne (x / 2 powi (e - 52)) = m" using assms(5) rne_eqI rne_tie by blast
  finally show ?thesis by (simp add: assms(6))
qed

lemma fl_idem: "fl (fl x) = fl x"
proof -
  have pos: "fl (fl x) = fl x" if x: "0 < x" for x
  proof -
    define e where "e = max (binade x) (- 1022)"
    define m where "m = rne (x / 2 powi (e - 52))"
    have f: "fl x = of_int m * 2 powi (e - 52)"
      unfolding m_def e_def by (rule fl_pos_unfold [OF x])
    have e: "- 1022 \<le> e" by (simp add: e_def)
    have "x < 2 powi (binade x + 1)" by (rule binade_bounds(2) [OF x])
    also have "\<dots> \<le> 2 powi (e + 1)" by (intro pow2_mono) (simp add: e_def)
    finally have "x / 2 powi (e - 52) < 2 powi (e + 1) / 2 powi (e - 52)"
      using pow2_pos [of "e - 52"] by (simp add: divide_strict_right_mono)
    also have "\<dots> = 2 powi 53" unfolding pow2_quot by simp
    finally have "x / 2 powi (e - 52) \<le> of_int (2 ^ 53)" by simp
    then have m53: "m \<le> 2 ^ 53" unfolding m_def by (rule rne_le_int)
    have "0 \<le> x / 2 powi (e - 52)" using x pow2_pos [of "e - 52"] by (simp add: less_imp_le)
    then have m0: "0 \<le> m" unfolding m_def using rne_ge_int [of 0] by simp
    show ?thesis
    proof (cases "m = 2 ^ 53")
      case True
      have "fl x = of_int (2 ^ 52) * (2 * 2 powi (e - 52))" unfolding f True by simp
      also have "2 * (2 :: rat) powi (e - 52) = 2 powi 1 * 2 powi (e - 52)" by simp
      also have "\<dots> = 2 powi (e - 51)" unfolding pow2_add by (simp add: algebra_simps)
      finally have g: "fl x = of_int (2 ^ 52) * 2 powi (e - 51)" .
      show ?thesis unfolding g using e by (intro fl_dyadic) simp_all
    next
      case False
      then have "\<bar>m\<bar> < 2 ^ 53" using m53 m0 by simp
      then show ?thesis unfolding f using e by (intro fl_dyadic) simp_all
    qed
  qed
  consider "0 < x" | "x = 0" | "x < 0" by linarith
  then show ?thesis
  proof cases
    case 1
    then show ?thesis by (rule pos)
  next
    case 2
    then show ?thesis by (simp add: fl_0)
  next
    case 3
    then have "fl (fl (- x)) = fl (- x)" by (intro pos) simp
    then show ?thesis by (simp add: fl_minus)
  qed
qed

lemma fl_numeral [simp]: "(numeral n :: int) < 2 ^ 53 \<Longrightarrow> fl (numeral n) = numeral n"
  using fl_of_int [of "numeral n"] by simp

lemma fl_zero [simp]: "fl 0 = 0"
  by (rule fl_0)

lemma fl_one [simp]: "fl 1 = 1"
  using fl_of_int [of 1] by simp

lemma fl_half [simp]: "fl (1 / 2) = 1 / 2"
  by (rule fl_exact [where m = 1 and k = "- 1"]) simp_all

lemma fl_exactI:
  assumes "x = of_int m * 2 powi k" and "y = x" and "\<bar>m\<bar> < 2 ^ 53" and "- 1074 \<le> k"
  shows "fl x = y"
  unfolding assms(2) by (rule fl_exact [OF assms(1,3,4)])

lemma fl_le: "x \<le> d \<Longrightarrow> fl d = d \<Longrightarrow> fl x \<le> d"
  using fl_mono [of x d] by simp

lemma fl_ge: "d \<le> x \<Longrightarrow> fl d = d \<Longrightarrow> d \<le> fl x"
  using fl_mono [of d x] by simp

lemma fl_lessD: "fl x < d \<Longrightarrow> fl d = d \<Longrightarrow> x < d"
  using fl_ge [of d x] by (cases "x < d") simp_all

lemma fl_greaterD: "d < fl x \<Longrightarrow> fl d = d \<Longrightarrow> d < x"
  using fl_le [of x d] by (cases "d < x") simp_all

lemma fl_quarter_below: "n < 2 ^ 50 \<Longrightarrow> fl (of_nat n - 1 / 4) = of_nat n - 1 / 4"
proof -
  assume n: "n < 2 ^ 50"
  have "int n < 2 ^ 50" using n by (metis of_nat_less_numeral_power_cancel_iff)
  then have b: "\<bar>4 * int n - 1\<bar> < 2 ^ 53" by simp
  have "(of_nat n :: rat) - 1 / 4 = of_int (4 * int n - 1) * 2 powi (- 2)"
    by (simp add: power_int_minus field_simps)
  then show ?thesis using b by (intro fl_exact [where m = "4 * int n - 1" and k = "- 2"]) simp_all
qed

lemma fl_quarter_above: "n < 2 ^ 50 \<Longrightarrow> fl (of_nat n + 1 / 4) = of_nat n + 1 / 4"
proof -
  assume n: "n < 2 ^ 50"
  have "int n < 2 ^ 50" using n by (metis of_nat_less_numeral_power_cancel_iff)
  then have b: "\<bar>4 * int n + 1\<bar> < 2 ^ 53" by simp
  have "(of_nat n :: rat) + 1 / 4 = of_int (4 * int n + 1) * 2 powi (- 2)"
    by (simp add: power_int_minus field_simps)
  then show ?thesis using b by (intro fl_exact [where m = "4 * int n + 1" and k = "- 2"]) simp_all
qed

lemma fl_nat: "n < 2 ^ 50 \<Longrightarrow> fl (of_nat n) = of_nat n"
  by (intro fl_of_nat) (simp add: less_trans [of n "2 ^ 50" "2 ^ 53"])

text \<open>A third of a whole number against a whole threshold: rounding does not decide.\<close>

lemma third_less_iff:
  assumes "c < 2 ^ 50"
  shows "fl (of_nat s / 3) < of_nat c \<longleftrightarrow> s < 3 * c"
proof
  assume "fl (of_nat s / 3) < of_nat c"
  then have "(of_nat s :: rat) / 3 < of_nat c" by (rule fl_lessD) (rule fl_nat [OF assms])
  then have "(of_nat s :: rat) < of_nat (3 * c)" by simp
  then show "s < 3 * c" by (simp only: of_nat_less_iff)
next
  assume "s < 3 * c"
  then have "s + 1 \<le> 3 * c" by simp
  then have "(of_nat (s + 1) :: rat) \<le> of_nat (3 * c)" by (simp only: of_nat_le_iff)
  then have "(of_nat s :: rat) / 3 \<le> of_nat c - 1 / 4" by simp
  then have "fl (of_nat s / 3) \<le> of_nat c - 1 / 4"
    by (rule fl_le) (rule fl_quarter_below [OF assms])
  then show "fl (of_nat s / 3) < of_nat c" by simp
qed

lemma third_greater_iff:
  assumes "c < 2 ^ 50"
  shows "of_nat c < fl (of_nat s / 3) \<longleftrightarrow> 3 * c < s"
proof
  assume "of_nat c < fl (of_nat s / 3)"
  then have "of_nat c < (of_nat s :: rat) / 3" by (rule fl_greaterD) (rule fl_nat [OF assms])
  then have "(of_nat (3 * c) :: rat) < of_nat s" by simp
  then show "3 * c < s" by (simp only: of_nat_less_iff)
next
  assume "3 * c < s"
  then have "3 * c + 1 \<le> s" by simp
  then have "(of_nat (3 * c + 1) :: rat) \<le> of_nat s" by (simp only: of_nat_le_iff)
  then have "of_nat c + 1 / 4 \<le> (of_nat s :: rat) / 3" by simp
  then have "of_nat c + 1 / 4 \<le> fl (of_nat s / 3)"
    by (rule fl_ge) (rule fl_quarter_above [OF assms])
  then show "of_nat c < fl (of_nat s / 3)" by simp
qed

lemma brightness_less_iff:
  "c < 2 ^ 50 \<Longrightarrow> brightness r g b < of_nat c \<longleftrightarrow> r + g + b < 3 * c"
  using third_less_iff [of c "r + g + b"] by (simp add: brightness_def fdiv_def)

lemma brightness_greater_iff:
  "c < 2 ^ 50 \<Longrightarrow> of_nat c < brightness r g b \<longleftrightarrow> 3 * c < r + g + b"
  using third_greater_iff [of c "r + g + b"] by (simp add: brightness_def fdiv_def)

lemma brightness_cmp:
  "brightness r g b < 60 \<longleftrightarrow> r + g + b < 180"
  "brightness r g b < 100 \<longleftrightarrow> r + g + b < 300"
  "brightness r g b < 120 \<longleftrightarrow> r + g + b < 360"
  "brightness r g b < 150 \<longleftrightarrow> r + g + b < 450"
  "150 < brightness r g b \<longleftrightarrow> 450 < r + g + b"
  "200 < brightness r g b \<longleftrightarrow> 600 < r + g + b"
  using brightness_less_iff [of 60 r g b] brightness_less_iff [of 100 r g b]
    brightness_less_iff [of 120 r g b] brightness_less_iff [of 150 r g b]
    brightness_greater_iff [of 150 r g b] brightness_greater_iff [of 200 r g b]
  by simp_all

lemma exact_third_cmp:
  "(of_nat r + of_nat g + of_nat b) / 3 < (60 :: rat) \<longleftrightarrow> r + g + b < 180"
  "(of_nat r + of_nat g + of_nat b) / 3 < (120 :: rat) \<longleftrightarrow> r + g + b < 360"
  "(of_nat r + of_nat g + of_nat b) / 3 < (150 :: rat) \<longleftrightarrow> r + g + b < 450"
  "(150 :: rat) < (of_nat r + of_nat g + of_nat b) / 3 \<longleftrightarrow> 450 < r + g + b"
  "(200 :: rat) < (of_nat r + of_nat g + of_nat b) / 3 \<longleftrightarrow> 600 < r + g + b"
proof -
  have e: "(of_nat r + of_nat g + of_nat b :: rat) = of_nat (r + g + b)" by simp
  show "(of_nat r + of_nat g + of_nat b) / 3 < (60 :: rat) \<longleftrightarrow> r + g + b < 180"
    unfolding e using of_nat_less_iff [of "r + g + b" 180, where ?'a = rat] by simp
  show "(of_nat r + of_nat g + of_nat b) / 3 < (120 :: rat) \<longleftrightarrow> r + g + b < 360"
    unfolding e using of_nat_less_iff [of "r + g + b" 360, where ?'a = rat] by simp
  show "(of_nat r + of_nat g + of_nat b) / 3 < (150 :: rat) \<longleftrightarrow> r + g + b < 450"
    unfolding e using of_nat_less_iff [of "r + g + b" 450, where ?'a = rat] by simp
  show "(150 :: rat) < (of_nat r + of_nat g + of_nat b) / 3 \<longleftrightarrow> 450 < r + g + b"
    unfolding e using of_nat_less_iff [of 450 "r + g + b", where ?'a = rat] by simp
  show "(200 :: rat) < (of_nat r + of_nat g + of_nat b) / 3 \<longleftrightarrow> 600 < r + g + b"
    unfolding e using of_nat_less_iff [of 600 "r + g + b", where ?'a = rat] by simp
qed

lemma sum3_cmp_numeral:
  "(of_nat r + of_nat g + of_nat b :: rat) < numeral k \<longleftrightarrow> r + g + b < numeral k"
  "(numeral k :: rat) < of_nat r + of_nat g + of_nat b \<longleftrightarrow> numeral k < r + g + b"
proof -
  have e: "(of_nat r + of_nat g + of_nat b :: rat) = of_nat (r + g + b)" by simp
  show "(of_nat r + of_nat g + of_nat b :: rat) < numeral k \<longleftrightarrow> r + g + b < numeral k"
    unfolding e by (rule of_nat_less_numeral_iff)
  show "(numeral k :: rat) < of_nat r + of_nat g + of_nat b \<longleftrightarrow> numeral k < r + g + b"
    unfolding e using of_nat_less_iff [of "numeral k" "r + g + b", where ?'a = rat] by simp
qed

section \<open>Properties of the analyzer\<close>

subsection \<open>Rounding to integers\<close>

lemma Math_round_mono: "x \<le> y \<Longrightarrow> Math_round x \<le> Math_round y"
  unfolding Math_round_def by (intro floor_mono) simp

lemma Math_round_eq_round: "Math_round x = round x"
  by (simp add: Math_round_def round_def)

lemma Math_round_nonneg: "0 \<le> x \<Longrightarrow> 0 \<le> Math_round x"
  unfolding Math_round_def by simp

lemma Math_round_of_int: "Math_round (of_int k) = k"
  unfolding Math_round_def by linarith

lemma Math_round_eq_iff:
  "Math_round x = k \<longleftrightarrow> of_int k \<le> x + 1 / 2 \<and> x + 1 / 2 < of_int k + 1"
  by (simp add: Math_round_def floor_eq_iff)

lemma Math_round_le: "(of_int (Math_round x) :: rat) \<le> x + 1 / 2"
  unfolding Math_round_def by (rule of_int_floor_le)

lemma Math_round_0: "Math_round 0 = 0"
  by (simp add: Math_round_eq_iff)


subsection \<open>The pixel loops\<close>

lemma length_rgbPixels: "length (rgbPixels xs) = (length xs + 1) div 4"
  by (induction xs rule: rgbPixels.induct) auto

lemma length_rgbPixels_valid:
  "valid_image img \<Longrightarrow> length (rgbPixels (data img)) = width img * height img"
  by (simp add: length_rgbPixels valid_image_def)

lemma blackSpotLoop_filter:
  "blackSpotLoop xs (n, m) =
     (n + length (filter (\<lambda>(r, g, b). isBlackSpot r g b) (rgbPixels xs)),
      m + length (filter (\<lambda>(r, g, b). isPotentialSpot r g b) (rgbPixels xs)))"
proof (induction xs arbitrary: n m rule: rgbPixels.induct)
  case (1 r g b rest)
  show ?case by (simp add: "1.IH")
qed simp_all

lemma isBlackSpot_exact:
  "isBlackSpot r g b \<longleftrightarrow>
     (of_nat r + of_nat g + of_nat b) / 3 < (60 :: rat) \<and>
     \<bar>of_nat r - of_nat g\<bar> + \<bar>of_nat g - of_nat b\<bar> + \<bar>of_nat b - of_nat r\<bar> < (30 :: rat)"
  by (simp add: isBlackSpot_def colorVariation_def brightness_cmp sum3_cmp_numeral)

lemma fst_blackSpotLoop: "fst (blackSpotLoop (data img) (0, 0)) = blackSpotPixelCountSpec img"
  by (simp add: blackSpotLoop_filter blackSpotPixelCountSpec_def isBlackSpot_exact)

lemma damageStep_matches: "damageStep r g b n = n + damageMatchesSpec (r, g, b)"
  by (simp add: damageStep_def damageMatchesSpec_def Let_def isYellowing_def isBrowning_def
      isWilting_def isWhitePatch_def brightness_cmp sum3_cmp_numeral)

lemma damageLoop_sum: "damageLoop xs n = n + sum_list (map damageMatchesSpec (rgbPixels xs))"
proof (induction xs arbitrary: n rule: rgbPixels.induct)
  case (1 r g b rest)
  show ?case by (simp add: "1.IH" damageStep_matches)
qed simp_all

lemma damageLoop_tally: "damageLoop (data img) 0 = damageTallySpec img"
  by (simp add: damageLoop_sum damageTallySpec_def)

lemma detectBlackSpots_fields:
  "bs_hasBlackSpots (detectBlackSpots img) \<longleftrightarrow>
     fmul (fdiv (of_nat (blackSpotPixelCountSpec img)) (of_nat (width img * height img))) 100
       > fl (1 / 10)"
  "bs_percentage (detectBlackSpots img) =
     fdiv (of_int (Math_round (fmul
       (fmul (fdiv (of_nat (blackSpotPixelCountSpec img)) (of_nat (width img * height img))) 100)
       100))) 100"
  "bs_count (detectBlackSpots img) =
     (if fmul (fdiv (of_nat (blackSpotPixelCountSpec img)) (of_nat (width img * height img))) 100
           > fl (1 / 10)
      then max 1 (Math_ceil (fdiv (of_nat (blackSpotPixelCountSpec img))
                               (fmul (of_nat (width img)) (fl (2 / 100)))))
      else 0)"
  unfolding fst_blackSpotLoop [symmetric] detectBlackSpots_def Let_def
  by (simp_all split: prod.splits)

lemma assessDamage_fields:
  "dm_hasDamage (assessDamage img) \<longleftrightarrow>
     fmul (fdiv (of_nat (damageTallySpec img)) (of_nat (width img * height img))) 100 > 1 / 2"
  "dm_percentage (assessDamage img) =
     fdiv (of_int (Math_round (fmul
       (fmul (fdiv (of_nat (damageTallySpec img)) (of_nat (width img * height img))) 100)
       100))) 100"
  unfolding damageLoop_tally [symmetric] assessDamage_def Let_def
  by simp_all

lemma analyzeImage_fields:
  "hasBlackSpots (analyzeImage img random elapsed) = bs_hasBlackSpots (detectBlackSpots img)"
  "blackSpotCount (analyzeImage img random elapsed) = bs_count (detectBlackSpots img)"
  "blackSpotPercentage (analyzeImage img random elapsed) = bs_percentage (detectBlackSpots img)"
  "hasDamage (analyzeImage img random elapsed) = dm_hasDamage (assessDamage img)"
  "damagePercentage (analyzeImage img random elapsed) = dm_percentage (assessDamage img)"
  "healthScore (analyzeImage img random elapsed) =
     calculateHealthScore (detectBlackSpots img) (assessDamage img)"
  "overallCondition (analyzeImage img random elapsed) =
     determineOverallCondition (calculateHealthScore (detectBlackSpots img) (assessDamage img))
       (bs_hasBlackSpots (detectBlackSpots img)) (dm_hasDamage (assessDamage img))"
  "imageQuality (analyzeImage img random elapsed) = assessImageQuality img"
  "ImageAnalysisResult.confidence (analyzeImage img random elapsed)
     = min (fadd 90 (fmul random 8)) 98"
  "analysisTime (analyzeImage img random elapsed) = elapsed"
  by (simp_all add: analyzeImage_def Let_def)

text \<open>
  No pixel meets more than two of the four damage tests: yellowing excludes the other
  three, and a white patch excludes browning and wilting.
\<close>

lemma wilting_bound:
  assumes "of_nat g < fmul (of_nat b) (fl (8 / 10))" and "b < 2 ^ 50"
  shows "g < b"
proof -
  have "fl (8 / 10) \<le> 1" by (rule fl_le) simp_all
  then have "(of_nat b :: rat) * fl (8 / 10) \<le> of_nat b * 1"
    by (intro mult_left_mono) simp_all
  then have "fmul (of_nat b) (fl (8 / 10)) \<le> of_nat b"
    unfolding fmul_def by (intro fl_le fl_nat [OF assms(2)]) simp
  with assms(1) have "(of_nat g :: rat) < of_nat b" by simp
  then show ?thesis by (simp only: of_nat_less_iff)
qed

lemma damageMatches_le_2: "damageMatchesSpec p \<le> 2"
proof -
  obtain r g b where p: "p = (r, g, b)" by (cases p) auto
  define W where "W \<longleftrightarrow> of_nat g < fmul (of_nat r) (fl (7 / 10)) \<and>
      of_nat g < fmul (of_nat b) (fl (8 / 10)) \<and> r + g + b < 360"
  have w: "W \<Longrightarrow> b < 100 \<Longrightarrow> g < 100"
  proof -
    assume "W" and b: "b < 100"
    then have "of_nat g < fmul (of_nat b) (fl (8 / 10))" by (simp add: W_def)
    moreover have "b < 2 ^ 50" using b by simp
    ultimately have "g < b" by (rule wilting_bound)
    with b show "g < 100" by simp
  qed
  have "damageMatchesSpec p =
      of_bool (r > 180 \<and> g > 150 \<and> b < 100 \<and> 450 < r + g + b) +
      of_bool (100 < r \<and> r < 180 \<and> 50 < g \<and> g < 130 \<and> b < 80 \<and> r + g + b < 450) +
      of_bool W +
      of_bool (600 < r + g + b \<and> \<bar>of_nat r - of_nat g :: rat\<bar> < 20
                  \<and> \<bar>of_nat g - of_nat b :: rat\<bar> < 20)"
    unfolding p damageMatchesSpec_def Let_def prod.case exact_third_cmp W_def ..
  also have "\<dots> \<le> 2"
  proof (cases "r > 180 \<and> g > 150 \<and> b < 100 \<and> 450 < r + g + b")
    case True
    then have "\<not> W" using w by auto
    moreover have "\<not> \<bar>of_nat g - of_nat b :: rat\<bar> < 20"
    proof -
      have "(of_nat b :: rat) + 20 \<le> of_nat g"
        using True of_nat_le_iff [of "b + 20" g, where ?'a = rat] by simp
      then show ?thesis by simp
    qed
    ultimately show ?thesis using True by (simp add: of_bool_def)
  next
    case False
    show ?thesis
    proof (cases "600 < r + g + b")
      case True
      then have "\<not> W" by (simp add: W_def)
      moreover have "\<not> r + g + b < 450" using True by simp
      ultimately show ?thesis using False by (simp add: of_bool_def)
    next
      case nw: False
      with False show ?thesis by (simp add: of_bool_def)
    qed
  qed
  finally show ?thesis .
qed

lemma damageTally_le: "damageTallySpec img \<le> 2 * length (rgbPixels (data img))"
proof -
  have "sum_list (map damageMatchesSpec xs) \<le> 2 * length xs" for xs
  proof (induction xs)
    case Nil
    show ?case by simp
  next
    case (Cons a xs)
    then show ?case using damageMatches_le_2 [of a] by simp
  qed
  then show ?thesis by (simp add: damageTallySpec_def)
qed

lemma blackSpotPixelCount_le: "blackSpotPixelCountSpec img \<le> length (rgbPixels (data img))"
  by (simp add: blackSpotPixelCountSpec_def)

subsection \<open>Ranges\<close>

lemma roundTo2_eq: "fdiv (of_int (Math_round (fmul x 100))) 100 = roundTo2 x"
  by (simp add: roundTo2_def Math_round_eq_round)

lemma percentage_ratio_bounds:
  fixes n t k :: nat
  assumes "0 < t" and "n \<le> k * t" and "k \<le> 2"
  shows "0 \<le> fmul (fdiv (of_nat n) (of_nat t)) 100"
    and "fmul (fdiv (of_nat n) (of_nat t)) 100 \<le> of_nat (k * 100)"
proof -
  have q0: "0 \<le> fdiv (of_nat n) (of_nat t)" unfolding fdiv_def by (intro fl_nonneg) simp
  then show "0 \<le> fmul (fdiv (of_nat n) (of_nat t)) 100"
    unfolding fmul_def by (intro fl_nonneg) simp
  have k50: "k < 2 ^ 50" "k * 100 < 2 ^ 50" using assms(3) by simp_all
  have "(of_nat n :: rat) \<le> of_nat (k * t)" using assms(2) by (simp only: of_nat_le_iff)
  then have "(of_nat n / of_nat t :: rat) \<le> of_nat k"
    using assms(1) by (simp add: divide_le_eq)
  then have "fdiv (of_nat n) (of_nat t) \<le> of_nat k"
    unfolding fdiv_def by (rule fl_le) (rule fl_nat [OF k50(1)])
  then have "fdiv (of_nat n) (of_nat t) * 100 \<le> of_nat (k * 100)" by simp
  then show "fmul (fdiv (of_nat n) (of_nat t)) 100 \<le> of_nat (k * 100)"
    unfolding fmul_def by (rule fl_le) (rule fl_nat [OF k50(2)])
qed

lemma rounded_percentage_bounds:
  fixes k :: nat
  assumes "0 \<le> x" and "x \<le> of_nat k" and "k \<le> 1000"
  shows "0 \<le> fdiv (of_int (Math_round (fmul x 100))) 100"
    and "fdiv (of_int (Math_round (fmul x 100))) 100 \<le> of_nat k"
proof -
  have k50: "k < 2 ^ 50" "k * 100 < 2 ^ 50" using assms(3) by simp_all
  have y0: "0 \<le> fmul x 100" unfolding fmul_def using assms(1) by (intro fl_nonneg) simp
  then have "0 \<le> Math_round (fmul x 100)" by (rule Math_round_nonneg)
  then show "0 \<le> fdiv (of_int (Math_round (fmul x 100))) 100"
    unfolding fdiv_def by (intro fl_nonneg) simp
  have "x * 100 \<le> of_nat (k * 100)" using assms(2) by simp
  then have "fmul x 100 \<le> of_nat (k * 100)"
    unfolding fmul_def by (rule fl_le) (rule fl_nat [OF k50(2)])
  then have "fmul x 100 \<le> of_int (int (k * 100))" by simp
  then have "Math_round (fmul x 100) \<le> Math_round (of_int (int (k * 100)))"
    by (rule Math_round_mono)
  then have "Math_round (fmul x 100) \<le> int (k * 100)" by (simp only: Math_round_of_int)
  then have "(of_int (Math_round (fmul x 100)) :: rat) \<le> of_int (int (k * 100))"
    by (simp only: of_int_le_iff)
  then have "(of_int (Math_round (fmul x 100)) :: rat) / 100 \<le> of_nat k" by simp
  then show "fdiv (of_int (Math_round (fmul x 100))) 100 \<le> of_nat k"
    unfolding fdiv_def by (rule fl_le) (rule fl_nat [OF k50(1)])
qed

lemma bs_percentage_range:
  assumes "valid_image img"
  shows "0 \<le> bs_percentage (detectBlackSpots img)" and "bs_percentage (detectBlackSpots img) \<le> 100"
proof -
  have t: "0 < width img * height img" using assms by (simp add: valid_image_def)
  have n: "blackSpotPixelCountSpec img \<le> 1 * (width img * height img)"
    using blackSpotPixelCount_le [of img] length_rgbPixels_valid [OF assms] by simp
  have r: "0 \<le> fmul (fdiv (of_nat (blackSpotPixelCountSpec img))
              (of_nat (width img * height img))) 100"
      "fmul (fdiv (of_nat (blackSpotPixelCountSpec img))
              (of_nat (width img * height img))) 100 \<le> of_nat 100"
    using percentage_ratio_bounds [OF t n] by simp_all
  from rounded_percentage_bounds [OF r]
  show "0 \<le> bs_percentage (detectBlackSpots img)" and "bs_percentage (detectBlackSpots img) \<le> 100"
    by (simp_all add: detectBlackSpots_fields)
qed

lemma dm_percentage_range:
  assumes "valid_image img"
  shows "0 \<le> dm_percentage (assessDamage img)" and "dm_percentage (assessDamage img) \<le> 200"
proof -
  have t: "0 < width img * height img" using assms by (simp add: valid_image_def)
  have n: "damageTallySpec img \<le> 2 * (width img * height img)"
    using damageTally_le [of img] length_rgbPixels_valid [OF assms] by simp
  have r: "0 \<le> fmul (fdiv (of_nat (damageTallySpec img))
              (of_nat (width img * height img))) 100"
      "fmul (fdiv (of_nat (damageTallySpec img))
              (of_nat (width img * height img))) 100 \<le> of_nat 200"
    using percentage_ratio_bounds [OF t n] by simp_all
  from rounded_percentage_bounds [OF r]
  show "0 \<le> dm_percentage (assessDamage img)" and "dm_percentage (assessDamage img) \<le> 200"
    by (simp_all add: assessDamage_fields)
qed

subsection \<open>The health score\<close>

text \<open>The three steps of \<open>calculateHealthScore\<close>, named.\<close>

lemma calculateHealthScore_unfold:
  "calculateHealthScore b d = max 0 (Math_round
     (let h1 = (if bs_hasBlackSpots b then fsub 100 (min (fmul (bs_percentage b) 3) 40) else 100);
          h2 = (if dm_hasDamage d then fsub h1 (min (fmul (dm_percentage d) 2) 50) else h1)
      in if bs_percentage b > 5 \<and> dm_percentage d > 10 then fsub h2 15 else h2))"
  unfolding calculateHealthScore_def Let_def by simp


lemma fsub_le_100: "a \<le> 100 \<Longrightarrow> 0 \<le> c \<Longrightarrow> fsub a c \<le> 100"
  unfolding fsub_def by (rule fl_le) simp_all

lemma health_steps_le_100:
  assumes "0 \<le> p" and "0 \<le> q"
  shows "(let h1 = (if sp then fsub 100 (min (fmul p 3) 40) else 100);
              h2 = (if dg then fsub h1 (min (fmul q 2) 50) else h1)
          in if p > 5 \<and> q > 10 then fsub h2 15 else h2) \<le> (100 :: number)"
proof -
  have a: "0 \<le> min (fmul p 3) 40" unfolding fmul_def using assms(1) by (simp add: fl_nonneg)
  have b: "0 \<le> min (fmul q 2) 50" unfolding fmul_def using assms(2) by (simp add: fl_nonneg)
  define h1 where "h1 = (if sp then fsub 100 (min (fmul p 3) 40) else 100)"
  define h2 where "h2 = (if dg then fsub h1 (min (fmul q 2) 50) else h1)"
  have 1: "h1 \<le> 100" unfolding h1_def using a by (simp add: fsub_le_100)
  have 2: "h2 \<le> 100" unfolding h2_def using 1 b by (simp add: fsub_le_100)
  have "(if p > 5 \<and> q > 10 then fsub h2 15 else h2) \<le> 100" using 2 by (simp add: fsub_le_100)
  then show ?thesis unfolding Let_def h1_def h2_def .
qed

lemma calculateHealthScore_range:
  assumes "0 \<le> bs_percentage b" and "0 \<le> dm_percentage d"
  shows "0 \<le> calculateHealthScore b d" and "calculateHealthScore b d \<le> 100"
proof -
  show "0 \<le> calculateHealthScore b d" unfolding calculateHealthScore_unfold by simp
  have "Math_round
     (let h1 = (if bs_hasBlackSpots b then fsub 100 (min (fmul (bs_percentage b) 3) 40) else 100);
          h2 = (if dm_hasDamage d then fsub h1 (min (fmul (dm_percentage d) 2) 50) else h1)
      in if bs_percentage b > 5 \<and> dm_percentage d > 10 then fsub h2 15 else h2)
      \<le> Math_round (of_int 100)"
    using health_steps_le_100 [OF assms] by (intro Math_round_mono) simp
  then show "calculateHealthScore b d \<le> 100"
    unfolding calculateHealthScore_unfold by (simp only: Math_round_of_int max.bounded_iff) simp
qed

subsection \<open>Rounded percentages and flags\<close>

lemma percentage_ge_1D:
  assumes "1 \<le> fdiv (of_int (Math_round (fmul x 100))) 100"
  shows "99 / 100 < x"
proof -
  define K where "K = Math_round (fmul x 100)"
  have "100 \<le> K"
  proof (rule ccontr)
    assume "\<not> 100 \<le> K"
    then have "K \<le> 99" by simp
    then have "(of_int K :: rat) \<le> of_int 99" by (simp only: of_int_le_iff)
    then have "(of_int K :: rat) / 100 \<le> 127 / 128" by simp
    then have "fl (of_int K / 100) \<le> 127 / 128"
      by (rule fl_le) (rule fl_exact [where m = 127 and k = "- 7"], simp_all)
    with assms show False by (simp add: K_def fdiv_def)
  qed
  then have "(of_int 100 :: rat) \<le> of_int K" by (simp only: of_int_le_iff)
  also have "\<dots> \<le> fmul x 100 + 1 / 2" unfolding K_def by (rule Math_round_le)
  finally have "99 < fl (x * 100)" by (simp add: fmul_def)
  then have "99 < x * 100" by (rule fl_greaterD) simp
  then show ?thesis by simp
qed

lemma fl_tenth_le: "fl (1 / 10) \<le> 1 / 8"
  by (rule fl_le) (simp, rule fl_exact [where m = 1 and k = "- 3"], simp_all)

lemma unrounded_gt:
  assumes "99 / 100 < fmul y 100"
  shows "1 / 2 < fmul y 100" and "fl (1 / 10) < fmul y 100"
  using assms fl_tenth_le by simp_all

lemma hasBlackSpots_if_percentage:
  assumes "1 \<le> bs_percentage (detectBlackSpots img)"
  shows "bs_hasBlackSpots (detectBlackSpots img)"
  using unrounded_gt(2) [OF percentage_ge_1D] assms by (simp add: detectBlackSpots_fields)

lemma hasDamage_if_percentage:
  assumes "1 \<le> dm_percentage (assessDamage img)"
  shows "dm_hasDamage (assessDamage img)"
  using unrounded_gt(1) [OF percentage_ge_1D] assms by (simp add: assessDamage_fields)

subsection \<open>Disease selection\<close>

lemma sampleResult_fields:
  "hasBlackSpots (sampleResult s p d q h) = s"
  "blackSpotPercentage (sampleResult s p d q h) = p"
  "hasDamage (sampleResult s p d q h) = d"
  "damagePercentage (sampleResult s p d q h) = q"
  "healthScore (sampleResult s p d q h) = h"
  "overallCondition (sampleResult s p d q h) = determineOverallCondition h s d"
  "ImageAnalysisResult.confidence (sampleResult s p d q h) = 94"
  by (simp_all add: sampleResult_def)

lemma comprehensiveDiseases_nth:
  "comprehensiveDiseases ! 0 = blackSpotDisease"
  "comprehensiveDiseases ! 1 = powderyMildew"
  "comprehensiveDiseases ! 2 = bacterialLeafSpot"
  by (simp_all add: comprehensiveDiseases_def)

lemma disease_names:
  "name blackSpotDisease = ''Black Spot Disease''"
  "name powderyMildew = ''Powdery Mildew''"
  "name bacterialLeafSpot = ''Bacterial Leaf Spot''"
  "name (healthyPlant r) = ''Healthy Plant''"
  "DiseaseInfo.confidence (healthyPlant r) = fl (95 / 100)"
  by (simp_all add: blackSpotDisease_def powderyMildew_def bacterialLeafSpot_def healthyPlant_def)

lemma select_branch1:
  assumes c1: "hasBlackSpots r \<and> blackSpotPercentage r > 2"
  shows "selectDiseaseBasedOnAnalysis r =
     blackSpotDisease \<lparr> DiseaseInfo.confidence :=
       min (fl (95 / 100)) (fdiv (ImageAnalysisResult.confidence r) 100) \<rparr>"
  unfolding selectDiseaseBasedOnAnalysis_def
  by (simp only: c1 simp_thms if_True comprehensiveDiseases_nth)

lemma select_branch2:
  assumes n1: "\<not> (hasBlackSpots r \<and> blackSpotPercentage r > 2)"
      and c2: "hasDamage r \<and> damagePercentage r > 10"
  shows "selectDiseaseBasedOnAnalysis r =
     powderyMildew \<lparr> DiseaseInfo.confidence :=
       min (fl (88 / 100)) (fdiv (ImageAnalysisResult.confidence r) 100) \<rparr>"
  unfolding selectDiseaseBasedOnAnalysis_def
  by (simp only: n1 c2 simp_thms if_True if_False comprehensiveDiseases_nth)

lemma select_branch3:
  assumes n1: "\<not> (hasBlackSpots r \<and> blackSpotPercentage r > 2)"
      and n2: "\<not> (hasDamage r \<and> damagePercentage r > 10)"
      and c3: "healthScore r < 60"
  shows "selectDiseaseBasedOnAnalysis r =
     bacterialLeafSpot \<lparr> DiseaseInfo.confidence :=
       min (fl (82 / 100)) (fdiv (ImageAnalysisResult.confidence r) 100) \<rparr>"
  unfolding selectDiseaseBasedOnAnalysis_def
  by (simp only: n1 n2 c3 if_True if_False comprehensiveDiseases_nth)

lemma select_branch4:
  assumes n1: "\<not> (hasBlackSpots r \<and> blackSpotPercentage r > 2)"
      and n2: "\<not> (hasDamage r \<and> damagePercentage r > 10)"
      and n3: "\<not> healthScore r < 60"
      and c4: "healthScore r \<ge> 85"
  shows "selectDiseaseBasedOnAnalysis r = healthyPlant r"
  unfolding selectDiseaseBasedOnAnalysis_def
  by (simp only: n1 n2 n3 c4 if_True if_False)

lemma select_branch5:
  assumes n1: "\<not> (hasBlackSpots r \<and> blackSpotPercentage r > 2)"
      and n2: "\<not> (hasDamage r \<and> damagePercentage r > 10)"
      and n3: "\<not> healthScore r < 60"
      and n4: "\<not> healthScore r \<ge> 85"
  shows "selectDiseaseBasedOnAnalysis r =
     powderyMildew \<lparr> DiseaseInfo.confidence :=
       min (fl (75 / 100)) (fdiv (ImageAnalysisResult.confidence r) 100) \<rparr>"
  unfolding selectDiseaseBasedOnAnalysis_def
  by (simp only: n1 n2 n3 n4 if_True if_False comprehensiveDiseases_nth)

lemma scenario_black_spot:
  assumes "blackSpotPercentage (analyzeImage img random elapsed) = 3"
  shows "name (selectDiseaseBasedOnAnalysis (analyzeImage img random elapsed))
         = ''Black Spot Disease''"
proof -
  have p: "bs_percentage (detectBlackSpots img) = 3" using assms by (simp add: analyzeImage_fields)
  then have "bs_hasBlackSpots (detectBlackSpots img)" by (intro hasBlackSpots_if_percentage) simp
  with p have "hasBlackSpots (analyzeImage img random elapsed)
      \<and> blackSpotPercentage (analyzeImage img random elapsed) > 2"
    by (simp add: analyzeImage_fields)
  then show ?thesis by (simp add: select_branch1 disease_names)
qed

lemma scenario_damage:
  assumes "blackSpotPercentage (analyzeImage img random elapsed) = 0"
      and "damagePercentage (analyzeImage img random elapsed) = 12"
  shows "name (selectDiseaseBasedOnAnalysis (analyzeImage img random elapsed))
         = ''Powdery Mildew''"
proof -
  have p: "dm_percentage (assessDamage img) = 12" using assms by (simp add: analyzeImage_fields)
  then have "dm_hasDamage (assessDamage img)" by (intro hasDamage_if_percentage) simp
  with p have d: "hasDamage (analyzeImage img random elapsed)
      \<and> damagePercentage (analyzeImage img random elapsed) > 10"
    by (simp add: analyzeImage_fields)
  have n: "\<not> (hasBlackSpots (analyzeImage img random elapsed)
      \<and> blackSpotPercentage (analyzeImage img random elapsed) > 2)"
    using assms(1) by simp
  show ?thesis by (simp add: select_branch2 [OF n d] disease_names)
qed

subsection \<open>Image quality\<close>

lemma fold_invariant:
  assumes "P a" and "\<And>x b. P b \<Longrightarrow> P (f x b)"
  shows "P (fold f xs a)"
  using assms(1) by (induction xs arbitrary: a) (simp_all add: assms(2))

lemma fadd_nonneg: "0 \<le> x \<Longrightarrow> 0 \<le> y \<Longrightarrow> 0 \<le> fadd x y"
  unfolding fadd_def by (intro fl_nonneg) simp

lemma qualityStep_snd: "0 \<le> snd acc \<Longrightarrow> 0 \<le> snd (qualityStep imageData y x acc)"
  by (simp add: qualityStep_def Let_def fadd_nonneg)

lemma qualityLoop_nonneg: "0 \<le> snd (qualityLoop imageData)"
  unfolding qualityLoop_def
  by (intro fold_invariant [where P = "\<lambda>acc. 0 \<le> snd acc"] qualityStep_snd) simp

lemma assessImageQuality_unfold:
  "assessImageQuality img =
     min (fadd (fadd 50
            (min (fmul (fmul (fdiv (of_nat (fst (qualityLoop img)))
                                    (of_nat (width img * height img))) 100) 2) 30))
            (min (fdiv (fdiv (snd (qualityLoop img)) (of_nat (width img * height img))) 5) 20))
         95"
  by (simp add: assessImageQuality_def Let_def split: prod.splits)

text \<open>Every read of the quality loop is inside the array.\<close>

lemma quality_reads_in_range:
  assumes "valid_image img"
      and "y \<in> set [1 ..< height img - 1]" and "x \<in> set [1 ..< width img - 1]"
  shows "(y * width img + x) * 4 + 6 < length (data img)"
    and "(y + 1) * width img * 4 + x * 4 + 2 < length (data img)"
proof -
  define w h where "w = width img" and "h = height img"
  have len: "length (data img) = 4 * w * h" using assms(1) by (simp add: valid_image_def w_def h_def)
  have y: "y + 2 \<le> h" and x: "x + 2 \<le> w" using assms(2,3) by (auto simp: w_def h_def)
  have "(y + 2) * w \<le> h * w" using y by (rule mult_le_mono1)
  then have a: "y * w + 2 * w \<le> w * h" by (simp add: algebra_simps)
  show "(y * width img + x) * 4 + 6 < length (data img)"
    unfolding len w_def [symmetric] using a x by simp
  show "(y + 1) * width img * 4 + x * 4 + 2 < length (data img)"
    unfolding len w_def [symmetric] using a x by (simp add: algebra_simps)
qed

subsection \<open>Sample images\<close>

lemma rgbPixels_replicate:
  "rgbPixels (concat (replicate n [r, g, b, a]) @ xs) = replicate n (r, g, b) @ rgbPixels xs"
  by (induction n) simp_all

lemma rgbPixels_replicate2:
  "rgbPixels (concat (replicate n [r, g, b, a]) @ concat (replicate m [r', g', b', a'])) =
     replicate n (r, g, b) @ replicate m (r', g', b')"
  using rgbPixels_replicate [of m r' g' b' a' "[]"] 
  by (simp add: rgbPixels_replicate)

lemma list_all_concat_replicate:
  "list_all P xs \<Longrightarrow> list_all P (concat (replicate n xs))"
  by (induction n) simp_all

lemma two_tone_valid:
  assumes "0 < w" "0 < h" "n + m = w * h"
    "r < 256" "g < 256" "b < 256" "a < 256" "r' < 256" "g' < 256" "b' < 256" "a' < 256"
  shows "valid_image \<lparr> width = w, height = h,
     data = concat (replicate n [r, g, b, a]) @ concat (replicate m [r', g', b', a']) \<rparr>"
proof -
  have "length (concat (replicate k [x1, x2, x3, x4 :: nat])) = 4 * k" for k x1 x2 x3 x4
    by (induction k) simp_all
  then have "length (concat (replicate n [r, g, b, a]) @ concat (replicate m [r', g', b', a']))
      = 4 * w * h"
    using assms(3) by (simp add: algebra_simps)
  moreover have "list_all (\<lambda>v. v < 256) (concat (replicate n [r, g, b, a]))"
    using assms by (intro list_all_concat_replicate) simp
  moreover have "list_all (\<lambda>v. v < 256) (concat (replicate m [r', g', b', a']))"
    using assms by (intro list_all_concat_replicate) simp
  ultimately show ?thesis using assms(1,2) by (simp add: valid_image_def)
qed

lemma two_tone_blackSpotPixelCount:
  "blackSpotPixelCountSpec \<lparr> width = w, height = h,
     data = concat (replicate n [r, g, b, a]) @ concat (replicate m [r', g', b', a']) \<rparr> =
   (if isBlackSpot r g b then n else 0) + (if isBlackSpot r' g' b' then m else 0)"
  by (simp add: blackSpotPixelCountSpec_def rgbPixels_replicate2 isBlackSpot_exact)

lemma two_tone_damageTally:
  "damageTallySpec \<lparr> width = w, height = h,
     data = concat (replicate n [r, g, b, a]) @ concat (replicate m [r', g', b', a']) \<rparr> =
   n * damageMatchesSpec (r, g, b) + m * damageMatchesSpec (r', g', b')"
  by (simp add: damageTallySpec_def rgbPixels_replicate2 sum_list_replicate)

lemma wilting_facts:
  "60 < fmul 150 (fl (7 / 10))" "60 < fmul 79 (fl (8 / 10))"
proof -
  have "1 / 2 \<le> fl (7 / 10)" by (rule fl_ge) simp_all
  then have "75 \<le> 150 * fl (7 / 10)" by simp
  then have "75 \<le> fmul 150 (fl (7 / 10))" unfolding fmul_def by (rule fl_ge) simp
  then show "60 < fmul 150 (fl (7 / 10))" by simp
  have "25 / 32 \<le> fl (8 / 10)"
    by (rule fl_ge) (simp, rule fl_exact [where m = 25 and k = "- 5"], simp_all)
  then have "61 \<le> 79 * fl (8 / 10)" by simp
  then have "61 \<le> fmul 79 (fl (8 / 10))" unfolding fmul_def by (rule fl_ge) simp
  then show "60 < fmul 79 (fl (8 / 10))" by simp
qed

lemma pixel_facts:
  "isBlackSpot 0 0 0" "\<not> isBlackSpot 128 128 128" "\<not> isBlackSpot 255 200 50"
  "\<not> isBlackSpot 150 60 79"
  "damageMatchesSpec (0, 0, 0) = 0" "damageMatchesSpec (128, 128, 128) = 0"
  "damageMatchesSpec (255, 200, 50) = 1" "damageMatchesSpec (150, 60, 79) = 2"
  using wilting_facts
  by (simp_all add: isBlackSpot_exact damageMatchesSpec_def fmul_def)

lemma fl_neg_numeral [simp]:
  "(numeral n :: int) < 2 ^ 53 \<Longrightarrow> fl (- numeral n) = - numeral n"
  by (simp add: fl_minus)

lemma Math_round_numeral [simp]: "Math_round (numeral n) = numeral n"
  using Math_round_of_int [of "numeral n"] by simp

lemma Math_round_neg_numeral [simp]: "Math_round (- numeral n) = - numeral n"
  using Math_round_of_int [of "- numeral n"] by simp

lemma fops_numeral:
  "fdiv x 1 = fl x" "fmul 0 y = 0" "fdiv 0 y = 0"
  by (simp_all add: fdiv_def fmul_def)

subsection \<open>The analysis of sample images\<close>

lemma image_8x4:
  defines "img \<equiv> \<lparr> width = 8, height = 4,
      data = concat (replicate 3 [0, 0, 0, 255]) @ concat (replicate 29 [128, 128, 128, 255]) \<rparr>"
  shows "valid_image img"
    and "bs_hasBlackSpots (detectBlackSpots img)"
    and "bs_percentage (detectBlackSpots img) = fl (938 / 100)"
    and "\<not> dm_hasDamage (assessDamage img)"
    and "dm_percentage (assessDamage img) = fl (0 / 100)"
    and "bs_count (detectBlackSpots img) = 19"
    and "calculateHealthScore (detectBlackSpots img) (assessDamage img) = 72"
proof -
  show "valid_image img" unfolding img_def by (rule two_tone_valid) simp_all
  have n: "blackSpotPixelCountSpec img = 3"
    unfolding img_def by (simp add: two_tone_blackSpotPixelCount pixel_facts)
  have d: "damageTallySpec img = 0"
    unfolding img_def by (simp add: two_tone_damageTally pixel_facts)
  have t: "width img = 8" "height img = 4" unfolding img_def by simp_all
  have e1: "fl (1 / 10) = 3602879701896397 / 36028797018963968"
    by (rule fl_evalI [where e = "- 4" and m = 7205759403792794]) simp_all
  have e2: "fdiv 3 32 = 3 / 32"
    unfolding fdiv_def by (rule fl_exactI [where m = 3 and k = "- 5"]) simp_all
  have e3: "fmul (3 / 32) 100 = 75 / 8"
    unfolding fmul_def by (rule fl_exactI [where m = 75 and k = "- 3"]) simp_all
  have e4: "fmul (75 / 8) 100 = 1875 / 2"
    unfolding fmul_def by (rule fl_exactI [where m = 1875 and k = "- 1"]) simp_all
  have e5: "Math_round (1875 / 2) = 938"
    by (simp add: Math_round_eq_iff)
  have e6: "fdiv 0 32 = 0"
    unfolding fdiv_def by simp
  have e7: "fmul 0 100 = 0"
    unfolding fmul_def by simp
  have e8: "fmul 0 100 = 0"
    unfolding fmul_def by simp
  have e9: "Math_round (0) = 0"
    by (simp add: Math_round_eq_iff)
  have e10: "fl (1 / 50) = 5764607523034235 / 288230376151711744"
    by (rule fl_evalI [where e = "- 6" and m = 5764607523034235]) simp_all
  have e11: "fmul 8 (5764607523034235 / 288230376151711744) = 5764607523034235 / 36028797018963968"
    unfolding fmul_def by (rule fl_exactI [where m = 5764607523034235 and k = "- 55"]) simp_all
  have e12: "fdiv 3 (5764607523034235 / 36028797018963968) = 75 / 4"
    unfolding fdiv_def by (rule fl_evalI [where e = 4 and m = 5277655813324800]) simp_all
  have e13: "Math_ceil (75 / 4) = 19"
    by (simp add: Math_ceil_def ceiling_eq_iff)
  have e14: "fl (469 / 50) = 5280470563091907 / 562949953421312"
    by (rule fl_evalI [where e = 3 and m = 5280470563091907]) simp_all
  have e15: "fl (0) = 0"
    by simp
  have e16: "fmul (5280470563091907 / 562949953421312) 3 = 1980176461159465 / 70368744177664"
    unfolding fmul_def by (rule fl_evalI [where e = 4 and m = 7920705844637860]) simp_all
  have e17: "fsub 100 (1980176461159465 / 70368744177664) = 5056697956606935 / 70368744177664"
    unfolding fsub_def by (rule fl_exactI [where m = 5056697956606935 and k = "- 46"]) simp_all
  have e18: "Math_round (5056697956606935 / 70368744177664) = 72"
    by (simp add: Math_round_eq_iff)
  show hb: "bs_hasBlackSpots (detectBlackSpots img)"
    by (simp add: detectBlackSpots_fields n t e1 e2 e3 e4 e5)
  have "bs_percentage (detectBlackSpots img) = fdiv 938 100"
    by (simp add: detectBlackSpots_fields n t e2 e3 e4 e5)
  then show p: "bs_percentage (detectBlackSpots img) = fl (938 / 100)" by (simp add: fdiv_def)
  show hd: "\<not> dm_hasDamage (assessDamage img)"
    by (simp add: assessDamage_fields d t e6 e7 e8 e9)
  have "dm_percentage (assessDamage img) = fdiv 0 100"
    by (simp add: assessDamage_fields d t e6 e7 e8 e9)
  then show q: "dm_percentage (assessDamage img) = fl (0 / 100)" by (simp add: fdiv_def)
  show "bs_count (detectBlackSpots img) = 19"
    by (simp add: detectBlackSpots_fields n t e1 e2 e3 e4 e5 e10 e11 e12 e13)
  show "calculateHealthScore (detectBlackSpots img) (assessDamage img) = 72"
    by (simp add: calculateHealthScore_unfold hb p hd q e14 e15 e16 e17 e18)
qed

lemma image_10x10:
  defines "img \<equiv> \<lparr> width = 10, height = 10,
      data = concat (replicate 3 [0, 0, 0, 255]) @ concat (replicate 97 [128, 128, 128, 255]) \<rparr>"
  shows "valid_image img"
    and "bs_hasBlackSpots (detectBlackSpots img)"
    and "bs_percentage (detectBlackSpots img) = fl (300 / 100)"
    and "\<not> dm_hasDamage (assessDamage img)"
    and "dm_percentage (assessDamage img) = fl (0 / 100)"
    and "calculateHealthScore (detectBlackSpots img) (assessDamage img) = 91"
proof -
  show "valid_image img" unfolding img_def by (rule two_tone_valid) simp_all
  have n: "blackSpotPixelCountSpec img = 3"
    unfolding img_def by (simp add: two_tone_blackSpotPixelCount pixel_facts)
  have d: "damageTallySpec img = 0"
    unfolding img_def by (simp add: two_tone_damageTally pixel_facts)
  have t: "width img = 10" "height img = 10" unfolding img_def by simp_all
  have e1: "fl (1 / 10) = 3602879701896397 / 36028797018963968"
    by (rule fl_evalI [where e = "- 4" and m = 7205759403792794]) simp_all
  have e2: "fdiv 3 100 = 1080863910568919 / 36028797018963968"
    unfolding fdiv_def by (rule fl_evalI [where e = "- 6" and m = 8646911284551352]) simp_all
  have e3: "fmul (1080863910568919 / 36028797018963968) 100 = 3"
    unfolding fmul_def by (rule fl_evalI [where e = 1 and m = 6755399441055744]) simp_all
  have e4: "fmul 3 100 = 300"
    unfolding fmul_def by (rule fl_exactI [where m = 300 and k = 0]) simp_all
  have e5: "Math_round (300) = 300"
    by (simp add: Math_round_eq_iff)
  have e6: "fdiv 0 100 = 0"
    unfolding fdiv_def by simp
  have e7: "fmul 0 100 = 0"
    unfolding fmul_def by simp
  have e8: "fmul 0 100 = 0"
    unfolding fmul_def by simp
  have e9: "Math_round (0) = 0"
    by (simp add: Math_round_eq_iff)
  have e10: "fl (3) = 3"
    by (rule fl_exactI [where m = 3 and k = 0]) simp_all
  have e11: "fl (0) = 0"
    by simp
  have e12: "fmul 3 3 = 9"
    unfolding fmul_def by (rule fl_exactI [where m = 9 and k = 0]) simp_all
  have e13: "fsub 100 9 = 91"
    unfolding fsub_def by (rule fl_exactI [where m = 91 and k = 0]) simp_all
  have e14: "Math_round (91) = 91"
    by (simp add: Math_round_eq_iff)
  show hb: "bs_hasBlackSpots (detectBlackSpots img)"
    by (simp add: detectBlackSpots_fields n t e1 e2 e3 e4 e5)
  have "bs_percentage (detectBlackSpots img) = fdiv 300 100"
    by (simp add: detectBlackSpots_fields n t e2 e3 e4 e5)
  then show p: "bs_percentage (detectBlackSpots img) = fl (300 / 100)" by (simp add: fdiv_def)
  show hd: "\<not> dm_hasDamage (assessDamage img)"
    by (simp add: assessDamage_fields d t e6 e7 e8 e9)
  have "dm_percentage (assessDamage img) = fdiv 0 100"
    by (simp add: assessDamage_fields d t e6 e7 e8 e9)
  then show q: "dm_percentage (assessDamage img) = fl (0 / 100)" by (simp add: fdiv_def)
  show "calculateHealthScore (detectBlackSpots img) (assessDamage img) = 91"
    by (simp add: calculateHealthScore_unfold hb p hd q e10 e11 e12 e13 e14)
qed

lemma image_5x5:
  defines "img \<equiv> \<lparr> width = 5, height = 5,
      data = concat (replicate 3 [255, 200, 50, 255]) @ concat (replicate 22 [128, 128, 128, 255]) \<rparr>"
  shows "valid_image img"
    and "\<not> bs_hasBlackSpots (detectBlackSpots img)"
    and "bs_percentage (detectBlackSpots img) = fl (0 / 100)"
    and "dm_hasDamage (assessDamage img)"
    and "dm_percentage (assessDamage img) = fl (1200 / 100)"
    and "calculateHealthScore (detectBlackSpots img) (assessDamage img) = 76"
proof -
  show "valid_image img" unfolding img_def by (rule two_tone_valid) simp_all
  have n: "blackSpotPixelCountSpec img = 0"
    unfolding img_def by (simp add: two_tone_blackSpotPixelCount pixel_facts)
  have d: "damageTallySpec img = 3"
    unfolding img_def by (simp add: two_tone_damageTally pixel_facts)
  have t: "width img = 5" "height img = 5" unfolding img_def by simp_all
  have e1: "fl (1 / 10) = 3602879701896397 / 36028797018963968"
    by (rule fl_evalI [where e = "- 4" and m = 7205759403792794]) simp_all
  have e2: "fdiv 0 25 = 0"
    unfolding fdiv_def by simp
  have e3: "fmul 0 100 = 0"
    unfolding fmul_def by simp
  have e4: "fmul 0 100 = 0"
    unfolding fmul_def by simp
  have e5: "Math_round (0) = 0"
    by (simp add: Math_round_eq_iff)
  have e6: "fdiv 3 25 = 1080863910568919 / 9007199254740992"
    unfolding fdiv_def by (rule fl_evalI [where e = "- 4" and m = 8646911284551352]) simp_all
  have e7: "fmul (1080863910568919 / 9007199254740992) 100 = 12"
    unfolding fmul_def by (rule fl_evalI [where e = 3 and m = 6755399441055744]) simp_all
  have e8: "fmul 12 100 = 1200"
    unfolding fmul_def by (rule fl_exactI [where m = 1200 and k = 0]) simp_all
  have e9: "Math_round (1200) = 1200"
    by (simp add: Math_round_eq_iff)
  have e10: "fl (0) = 0"
    by simp
  have e11: "fl (12) = 12"
    by (rule fl_exactI [where m = 12 and k = 0]) simp_all
  have e12: "fmul 12 2 = 24"
    unfolding fmul_def by (rule fl_exactI [where m = 24 and k = 0]) simp_all
  have e13: "fsub 100 24 = 76"
    unfolding fsub_def by (rule fl_exactI [where m = 76 and k = 0]) simp_all
  have e14: "Math_round (76) = 76"
    by (simp add: Math_round_eq_iff)
  show hb: "\<not> bs_hasBlackSpots (detectBlackSpots img)"
    by (simp add: detectBlackSpots_fields n t e1 e2 e3 e4 e5)
  have "bs_percentage (detectBlackSpots img) = fdiv 0 100"
    by (simp add: detectBlackSpots_fields n t e2 e3 e4 e5)
  then show p: "bs_percentage (detectBlackSpots img) = fl (0 / 100)" by (simp add: fdiv_def)
  show hd: "dm_hasDamage (assessDamage img)"
    by (simp add: assessDamage_fields d t e6 e7 e8 e9)
  have "dm_percentage (assessDamage img) = fdiv 1200 100"
    by (simp add: assessDamage_fields d t e6 e7 e8 e9)
  then show q: "dm_percentage (assessDamage img) = fl (1200 / 100)" by (simp add: fdiv_def)
  show "calculateHealthScore (detectBlackSpots img) (assessDamage img) = 76"
    by (simp add: calculateHealthScore_unfold hb p hd q e10 e11 e12 e13 e14)
qed

lemma image_10x10_two:
  defines "img \<equiv> \<lparr> width = 10, height = 10,
      data = concat (replicate 2 [0, 0, 0, 255]) @ concat (replicate 98 [128, 128, 128, 255]) \<rparr>"
  shows "valid_image img"
    and "bs_hasBlackSpots (detectBlackSpots img)"
    and "bs_percentage (detectBlackSpots img) = fl (200 / 100)"
    and "\<not> dm_hasDamage (assessDamage img)"
    and "dm_percentage (assessDamage img) = fl (0 / 100)"
    and "calculateHealthScore (detectBlackSpots img) (assessDamage img) = 94"
proof -
  show "valid_image img" unfolding img_def by (rule two_tone_valid) simp_all
  have n: "blackSpotPixelCountSpec img = 2"
    unfolding img_def by (simp add: two_tone_blackSpotPixelCount pixel_facts)
  have d: "damageTallySpec img = 0"
    unfolding img_def by (simp add: two_tone_damageTally pixel_facts)
  have t: "width img = 10" "height img = 10" unfolding img_def by simp_all
  have e1: "fl (1 / 10) = 3602879701896397 / 36028797018963968"
    by (rule fl_evalI [where e = "- 4" and m = 7205759403792794]) simp_all
  have e2: "fdiv 2 100 = 5764607523034235 / 288230376151711744"
    unfolding fdiv_def by (rule fl_evalI [where e = "- 6" and m = 5764607523034235]) simp_all
  have e3: "fmul (5764607523034235 / 288230376151711744) 100 = 2"
    unfolding fmul_def by (rule fl_evalI [where e = 1 and m = 4503599627370496]) simp_all
  have e4: "fmul 2 100 = 200"
    unfolding fmul_def by (rule fl_exactI [where m = 200 and k = 0]) simp_all
  have e5: "Math_round (200) = 200"
    by (simp add: Math_round_eq_iff)
  have e6: "fdiv 0 100 = 0"
    unfolding fdiv_def by simp
  have e7: "fmul 0 100 = 0"
    unfolding fmul_def by simp
  have e8: "fmul 0 100 = 0"
    unfolding fmul_def by simp
  have e9: "Math_round (0) = 0"
    by (simp add: Math_round_eq_iff)
  have e10: "fl (2) = 2"
    by (rule fl_exactI [where m = 2 and k = 0]) simp_all
  have e11: "fl (0) = 0"
    by simp
  have e12: "fmul 2 3 = 6"
    unfolding fmul_def by (rule fl_exactI [where m = 6 and k = 0]) simp_all
  have e13: "fsub 100 6 = 94"
    unfolding fsub_def by (rule fl_exactI [where m = 94 and k = 0]) simp_all
  have e14: "Math_round (94) = 94"
    by (simp add: Math_round_eq_iff)
  show hb: "bs_hasBlackSpots (detectBlackSpots img)"
    by (simp add: detectBlackSpots_fields n t e1 e2 e3 e4 e5)
  have "bs_percentage (detectBlackSpots img) = fdiv 200 100"
    by (simp add: detectBlackSpots_fields n t e2 e3 e4 e5)
  then show p: "bs_percentage (detectBlackSpots img) = fl (200 / 100)" by (simp add: fdiv_def)
  show hd: "\<not> dm_hasDamage (assessDamage img)"
    by (simp add: assessDamage_fields d t e6 e7 e8 e9)
  have "dm_percentage (assessDamage img) = fdiv 0 100"
    by (simp add: assessDamage_fields d t e6 e7 e8 e9)
  then show q: "dm_percentage (assessDamage img) = fl (0 / 100)" by (simp add: fdiv_def)
  show "calculateHealthScore (detectBlackSpots img) (assessDamage img) = 94"
    by (simp add: calculateHealthScore_unfold hb p hd q e10 e11 e12 e13 e14)
qed

lemma image_48x40:
  defines "img \<equiv> \<lparr> width = 48, height = 40,
      data = concat (replicate 2 [0, 0, 0, 255]) @ concat (replicate 1918 [128, 128, 128, 255]) \<rparr>"
  shows "valid_image img"
    and "bs_hasBlackSpots (detectBlackSpots img)"
    and "bs_percentage (detectBlackSpots img) = fl (10 / 100)"
    and "\<not> dm_hasDamage (assessDamage img)"
    and "dm_percentage (assessDamage img) = fl (0 / 100)"
proof -
  show "valid_image img" unfolding img_def by (rule two_tone_valid) simp_all
  have n: "blackSpotPixelCountSpec img = 2"
    unfolding img_def by (simp add: two_tone_blackSpotPixelCount pixel_facts)
  have d: "damageTallySpec img = 0"
    unfolding img_def by (simp add: two_tone_damageTally pixel_facts)
  have t: "width img = 48" "height img = 40" unfolding img_def by simp_all
  have e1: "fl (1 / 10) = 3602879701896397 / 36028797018963968"
    by (rule fl_evalI [where e = "- 4" and m = 7205759403792794]) simp_all
  have e2: "fdiv 2 1920 = 4803839602528529 / 4611686018427387904"
    unfolding fdiv_def by (rule fl_evalI [where e = "- 10" and m = 4803839602528529]) simp_all
  have e3: "fmul (4803839602528529 / 4611686018427387904) 100 = 7505999378950827 / 72057594037927936"
    unfolding fmul_def by (rule fl_evalI [where e = "- 4" and m = 7505999378950827]) simp_all
  have e4: "fmul (7505999378950827 / 72057594037927936) 100 = 2932031007402667 / 281474976710656"
    unfolding fmul_def by (rule fl_evalI [where e = 3 and m = 5864062014805334]) simp_all
  have e5: "Math_round (2932031007402667 / 281474976710656) = 10"
    by (simp add: Math_round_eq_iff)
  have e6: "fdiv 0 1920 = 0"
    unfolding fdiv_def by simp
  have e7: "fmul 0 100 = 0"
    unfolding fmul_def by simp
  have e8: "fmul 0 100 = 0"
    unfolding fmul_def by simp
  have e9: "Math_round (0) = 0"
    by (simp add: Math_round_eq_iff)
  show hb: "bs_hasBlackSpots (detectBlackSpots img)"
    by (simp add: detectBlackSpots_fields n t e1 e2 e3 e4 e5)
  have "bs_percentage (detectBlackSpots img) = fdiv 10 100"
    by (simp add: detectBlackSpots_fields n t e2 e3 e4 e5)
  then show p: "bs_percentage (detectBlackSpots img) = fl (10 / 100)" by (simp add: fdiv_def)
  show hd: "\<not> dm_hasDamage (assessDamage img)"
    by (simp add: assessDamage_fields d t e6 e7 e8 e9)
  have "dm_percentage (assessDamage img) = fdiv 0 100"
    by (simp add: assessDamage_fields d t e6 e7 e8 e9)
  then show q: "dm_percentage (assessDamage img) = fl (0 / 100)" by (simp add: fdiv_def)
qed

lemma image_199x2:
  defines "img \<equiv> \<lparr> width = 199, height = 2,
      data = concat (replicate 2 [255, 200, 50, 255]) @ concat (replicate 396 [128, 128, 128, 255]) \<rparr>"
  shows "valid_image img"
    and "\<not> bs_hasBlackSpots (detectBlackSpots img)"
    and "bs_percentage (detectBlackSpots img) = fl (0 / 100)"
    and "dm_hasDamage (assessDamage img)"
    and "dm_percentage (assessDamage img) = fl (50 / 100)"
proof -
  show "valid_image img" unfolding img_def by (rule two_tone_valid) simp_all
  have n: "blackSpotPixelCountSpec img = 0"
    unfolding img_def by (simp add: two_tone_blackSpotPixelCount pixel_facts)
  have d: "damageTallySpec img = 2"
    unfolding img_def by (simp add: two_tone_damageTally pixel_facts)
  have t: "width img = 199" "height img = 2" unfolding img_def by simp_all
  have e1: "fl (1 / 10) = 3602879701896397 / 36028797018963968"
    by (rule fl_evalI [where e = "- 4" and m = 7205759403792794]) simp_all
  have e2: "fdiv 0 398 = 0"
    unfolding fdiv_def by simp
  have e3: "fmul 0 100 = 0"
    unfolding fmul_def by simp
  have e4: "fmul 0 100 = 0"
    unfolding fmul_def by simp
  have e5: "Math_round (0) = 0"
    by (simp add: Math_round_eq_iff)
  have e6: "fdiv 2 398 = 5793575400034407 / 1152921504606846976"
    unfolding fdiv_def by (rule fl_evalI [where e = "- 8" and m = 5793575400034407]) simp_all
  have e7: "fmul (5793575400034407 / 1152921504606846976) 100 = 282889423829805 / 562949953421312"
    unfolding fmul_def by (rule fl_evalI [where e = "- 1" and m = 4526230781276880]) simp_all
  have e8: "fmul (282889423829805 / 562949953421312) 100 = 7072235595745125 / 140737488355328"
    unfolding fmul_def by (rule fl_exactI [where m = 7072235595745125 and k = "- 47"]) simp_all
  have e9: "Math_round (7072235595745125 / 140737488355328) = 50"
    by (simp add: Math_round_eq_iff)
  show hb: "\<not> bs_hasBlackSpots (detectBlackSpots img)"
    by (simp add: detectBlackSpots_fields n t e1 e2 e3 e4 e5)
  have "bs_percentage (detectBlackSpots img) = fdiv 0 100"
    by (simp add: detectBlackSpots_fields n t e2 e3 e4 e5)
  then show p: "bs_percentage (detectBlackSpots img) = fl (0 / 100)" by (simp add: fdiv_def)
  show hd: "dm_hasDamage (assessDamage img)"
    by (simp add: assessDamage_fields d t e6 e7 e8 e9)
  have "dm_percentage (assessDamage img) = fdiv 50 100"
    by (simp add: assessDamage_fields d t e6 e7 e8 e9)
  then show q: "dm_percentage (assessDamage img) = fl (50 / 100)" by (simp add: fdiv_def)
qed

lemma image_16x10_black:
  defines "img \<equiv> \<lparr> width = 16, height = 10,
      data = concat (replicate 23 [0, 0, 0, 255]) @ concat (replicate 137 [128, 128, 128, 255]) \<rparr>"
  shows "valid_image img"
    and "bs_hasBlackSpots (detectBlackSpots img)"
    and "bs_percentage (detectBlackSpots img) = fl (1437 / 100)"
    and "\<not> dm_hasDamage (assessDamage img)"
    and "dm_percentage (assessDamage img) = fl (0 / 100)"
proof -
  show "valid_image img" unfolding img_def by (rule two_tone_valid) simp_all
  have n: "blackSpotPixelCountSpec img = 23"
    unfolding img_def by (simp add: two_tone_blackSpotPixelCount pixel_facts)
  have d: "damageTallySpec img = 0"
    unfolding img_def by (simp add: two_tone_damageTally pixel_facts)
  have t: "width img = 16" "height img = 10" unfolding img_def by simp_all
  have e1: "fl (1 / 10) = 3602879701896397 / 36028797018963968"
    by (rule fl_evalI [where e = "- 4" and m = 7205759403792794]) simp_all
  have e2: "fdiv 23 160 = 2589569785738035 / 18014398509481984"
    unfolding fdiv_def by (rule fl_evalI [where e = "- 3" and m = 5179139571476070]) simp_all
  have e3: "fmul (2589569785738035 / 18014398509481984) 100 = 8092405580431359 / 562949953421312"
    unfolding fmul_def by (rule fl_evalI [where e = 3 and m = 8092405580431359]) simp_all
  have e4: "fmul (8092405580431359 / 562949953421312) 100 = 6322191859711999 / 4398046511104"
    unfolding fmul_def by (rule fl_evalI [where e = 10 and m = 6322191859711999]) simp_all
  have e5: "Math_round (6322191859711999 / 4398046511104) = 1437"
    by (simp add: Math_round_eq_iff)
  have e6: "fdiv 0 160 = 0"
    unfolding fdiv_def by simp
  have e7: "fmul 0 100 = 0"
    unfolding fmul_def by simp
  have e8: "fmul 0 100 = 0"
    unfolding fmul_def by simp
  have e9: "Math_round (0) = 0"
    by (simp add: Math_round_eq_iff)
  show hb: "bs_hasBlackSpots (detectBlackSpots img)"
    by (simp add: detectBlackSpots_fields n t e1 e2 e3 e4 e5)
  have "bs_percentage (detectBlackSpots img) = fdiv 1437 100"
    by (simp add: detectBlackSpots_fields n t e2 e3 e4 e5)
  then show p: "bs_percentage (detectBlackSpots img) = fl (1437 / 100)" by (simp add: fdiv_def)
  show hd: "\<not> dm_hasDamage (assessDamage img)"
    by (simp add: assessDamage_fields d t e6 e7 e8 e9)
  have "dm_percentage (assessDamage img) = fdiv 0 100"
    by (simp add: assessDamage_fields d t e6 e7 e8 e9)
  then show q: "dm_percentage (assessDamage img) = fl (0 / 100)" by (simp add: fdiv_def)
qed

lemma image_16x10_yellow:
  defines "img \<equiv> \<lparr> width = 16, height = 10,
      data = concat (replicate 23 [255, 200, 50, 255]) @ concat (replicate 137 [128, 128, 128, 255]) \<rparr>"
  shows "valid_image img"
    and "\<not> bs_hasBlackSpots (detectBlackSpots img)"
    and "bs_percentage (detectBlackSpots img) = fl (0 / 100)"
    and "dm_hasDamage (assessDamage img)"
    and "dm_percentage (assessDamage img) = fl (1437 / 100)"
proof -
  show "valid_image img" unfolding img_def by (rule two_tone_valid) simp_all
  have n: "blackSpotPixelCountSpec img = 0"
    unfolding img_def by (simp add: two_tone_blackSpotPixelCount pixel_facts)
  have d: "damageTallySpec img = 23"
    unfolding img_def by (simp add: two_tone_damageTally pixel_facts)
  have t: "width img = 16" "height img = 10" unfolding img_def by simp_all
  have e1: "fl (1 / 10) = 3602879701896397 / 36028797018963968"
    by (rule fl_evalI [where e = "- 4" and m = 7205759403792794]) simp_all
  have e2: "fdiv 0 160 = 0"
    unfolding fdiv_def by simp
  have e3: "fmul 0 100 = 0"
    unfolding fmul_def by simp
  have e4: "fmul 0 100 = 0"
    unfolding fmul_def by simp
  have e5: "Math_round (0) = 0"
    by (simp add: Math_round_eq_iff)
  have e6: "fdiv 23 160 = 2589569785738035 / 18014398509481984"
    unfolding fdiv_def by (rule fl_evalI [where e = "- 3" and m = 5179139571476070]) simp_all
  have e7: "fmul (2589569785738035 / 18014398509481984) 100 = 8092405580431359 / 562949953421312"
    unfolding fmul_def by (rule fl_evalI [where e = 3 and m = 8092405580431359]) simp_all
  have e8: "fmul (8092405580431359 / 562949953421312) 100 = 6322191859711999 / 4398046511104"
    unfolding fmul_def by (rule fl_evalI [where e = 10 and m = 6322191859711999]) simp_all
  have e9: "Math_round (6322191859711999 / 4398046511104) = 1437"
    by (simp add: Math_round_eq_iff)
  show hb: "\<not> bs_hasBlackSpots (detectBlackSpots img)"
    by (simp add: detectBlackSpots_fields n t e1 e2 e3 e4 e5)
  have "bs_percentage (detectBlackSpots img) = fdiv 0 100"
    by (simp add: detectBlackSpots_fields n t e2 e3 e4 e5)
  then show p: "bs_percentage (detectBlackSpots img) = fl (0 / 100)" by (simp add: fdiv_def)
  show hd: "dm_hasDamage (assessDamage img)"
    by (simp add: assessDamage_fields d t e6 e7 e8 e9)
  have "dm_percentage (assessDamage img) = fdiv 1437 100"
    by (simp add: assessDamage_fields d t e6 e7 e8 e9)
  then show q: "dm_percentage (assessDamage img) = fl (1437 / 100)" by (simp add: fdiv_def)
qed

lemma image_58x3:
  defines "img \<equiv> \<lparr> width = 58, height = 3,
      data = concat (replicate 145 [0, 0, 0, 255]) @ concat (replicate 29 [128, 128, 128, 255]) \<rparr>"
  shows "valid_image img"
    and "bs_hasBlackSpots (detectBlackSpots img)"
    and "bs_percentage (detectBlackSpots img) = fl (8333 / 100)"
    and "\<not> dm_hasDamage (assessDamage img)"
    and "dm_percentage (assessDamage img) = fl (0 / 100)"
    and "bs_count (detectBlackSpots img) = 126"
proof -
  show "valid_image img" unfolding img_def by (rule two_tone_valid) simp_all
  have n: "blackSpotPixelCountSpec img = 145"
    unfolding img_def by (simp add: two_tone_blackSpotPixelCount pixel_facts)
  have d: "damageTallySpec img = 0"
    unfolding img_def by (simp add: two_tone_damageTally pixel_facts)
  have t: "width img = 58" "height img = 3" unfolding img_def by simp_all
  have e1: "fl (1 / 10) = 3602879701896397 / 36028797018963968"
    by (rule fl_evalI [where e = "- 4" and m = 7205759403792794]) simp_all
  have e2: "fdiv 145 174 = 7505999378950827 / 9007199254740992"
    unfolding fdiv_def by (rule fl_evalI [where e = "- 1" and m = 7505999378950827]) simp_all
  have e3: "fmul (7505999378950827 / 9007199254740992) 100 = 2932031007402667 / 35184372088832"
    unfolding fmul_def by (rule fl_evalI [where e = 6 and m = 5864062014805334]) simp_all
  have e4: "fmul (2932031007402667 / 35184372088832) 100 = 4581298449066667 / 549755813888"
    unfolding fmul_def by (rule fl_evalI [where e = 13 and m = 4581298449066667]) simp_all
  have e5: "Math_round (4581298449066667 / 549755813888) = 8333"
    by (simp add: Math_round_eq_iff)
  have e6: "fdiv 0 174 = 0"
    unfolding fdiv_def by simp
  have e7: "fmul 0 100 = 0"
    unfolding fmul_def by simp
  have e8: "fmul 0 100 = 0"
    unfolding fmul_def by simp
  have e9: "Math_round (0) = 0"
    by (simp add: Math_round_eq_iff)
  have e10: "fl (1 / 50) = 5764607523034235 / 288230376151711744"
    by (rule fl_evalI [where e = "- 6" and m = 5764607523034235]) simp_all
  have e11: "fmul 58 (5764607523034235 / 288230376151711744) = 5224175567749775 / 4503599627370496"
    unfolding fmul_def by (rule fl_evalI [where e = 0 and m = 5224175567749775]) simp_all
  have e12: "fdiv 145 (5224175567749775 / 4503599627370496) = 8796093022208001 / 70368744177664"
    unfolding fdiv_def by (rule fl_evalI [where e = 6 and m = 8796093022208001]) simp_all
  have e13: "Math_ceil (8796093022208001 / 70368744177664) = 126"
    by (simp add: Math_ceil_def ceiling_eq_iff)
  show hb: "bs_hasBlackSpots (detectBlackSpots img)"
    by (simp add: detectBlackSpots_fields n t e1 e2 e3 e4 e5)
  have "bs_percentage (detectBlackSpots img) = fdiv 8333 100"
    by (simp add: detectBlackSpots_fields n t e2 e3 e4 e5)
  then show p: "bs_percentage (detectBlackSpots img) = fl (8333 / 100)" by (simp add: fdiv_def)
  show hd: "\<not> dm_hasDamage (assessDamage img)"
    by (simp add: assessDamage_fields d t e6 e7 e8 e9)
  have "dm_percentage (assessDamage img) = fdiv 0 100"
    by (simp add: assessDamage_fields d t e6 e7 e8 e9)
  then show q: "dm_percentage (assessDamage img) = fl (0 / 100)" by (simp add: fdiv_def)
  show "bs_count (detectBlackSpots img) = 126"
    by (simp add: detectBlackSpots_fields n t e1 e2 e3 e4 e5 e10 e11 e12 e13)
qed

lemma image_5x5_both:
  defines "img \<equiv> \<lparr> width = 5, height = 5,
      data = concat (replicate 3 [150, 60, 79, 255]) @ concat (replicate 22 [128, 128, 128, 255]) \<rparr>"
  shows "valid_image img"
    and "\<not> bs_hasBlackSpots (detectBlackSpots img)"
    and "bs_percentage (detectBlackSpots img) = fl (0 / 100)"
    and "dm_hasDamage (assessDamage img)"
    and "dm_percentage (assessDamage img) = fl (2400 / 100)"
    and "calculateHealthScore (detectBlackSpots img) (assessDamage img) = 52"
proof -
  show "valid_image img" unfolding img_def by (rule two_tone_valid) simp_all
  have n: "blackSpotPixelCountSpec img = 0"
    unfolding img_def by (simp add: two_tone_blackSpotPixelCount pixel_facts)
  have d: "damageTallySpec img = 6"
    unfolding img_def by (simp add: two_tone_damageTally pixel_facts)
  have t: "width img = 5" "height img = 5" unfolding img_def by simp_all
  have e1: "fl (1 / 10) = 3602879701896397 / 36028797018963968"
    by (rule fl_evalI [where e = "- 4" and m = 7205759403792794]) simp_all
  have e2: "fdiv 0 25 = 0"
    unfolding fdiv_def by simp
  have e3: "fmul 0 100 = 0"
    unfolding fmul_def by simp
  have e4: "fmul 0 100 = 0"
    unfolding fmul_def by simp
  have e5: "Math_round (0) = 0"
    by (simp add: Math_round_eq_iff)
  have e6: "fdiv 6 25 = 1080863910568919 / 4503599627370496"
    unfolding fdiv_def by (rule fl_evalI [where e = "- 3" and m = 8646911284551352]) simp_all
  have e7: "fmul (1080863910568919 / 4503599627370496) 100 = 24"
    unfolding fmul_def by (rule fl_evalI [where e = 4 and m = 6755399441055744]) simp_all
  have e8: "fmul 24 100 = 2400"
    unfolding fmul_def by (rule fl_exactI [where m = 2400 and k = 0]) simp_all
  have e9: "Math_round (2400) = 2400"
    by (simp add: Math_round_eq_iff)
  have e10: "fl (0) = 0"
    by simp
  have e11: "fl (24) = 24"
    by (rule fl_exactI [where m = 24 and k = 0]) simp_all
  have e12: "fmul 24 2 = 48"
    unfolding fmul_def by (rule fl_exactI [where m = 48 and k = 0]) simp_all
  have e13: "fsub 100 48 = 52"
    unfolding fsub_def by (rule fl_exactI [where m = 52 and k = 0]) simp_all
  have e14: "Math_round (52) = 52"
    by (simp add: Math_round_eq_iff)
  show hb: "\<not> bs_hasBlackSpots (detectBlackSpots img)"
    by (simp add: detectBlackSpots_fields n t e1 e2 e3 e4 e5)
  have "bs_percentage (detectBlackSpots img) = fdiv 0 100"
    by (simp add: detectBlackSpots_fields n t e2 e3 e4 e5)
  then show p: "bs_percentage (detectBlackSpots img) = fl (0 / 100)" by (simp add: fdiv_def)
  show hd: "dm_hasDamage (assessDamage img)"
    by (simp add: assessDamage_fields d t e6 e7 e8 e9)
  have "dm_percentage (assessDamage img) = fdiv 2400 100"
    by (simp add: assessDamage_fields d t e6 e7 e8 e9)
  then show q: "dm_percentage (assessDamage img) = fl (2400 / 100)" by (simp add: fdiv_def)
  show "calculateHealthScore (detectBlackSpots img) (assessDamage img) = 52"
    by (simp add: calculateHealthScore_unfold hb p hd q e10 e11 e12 e13 e14)
qed

section \<open>The claims\<close>

text \<open>
  C1, as the specification states it, bounds \<open>damagePercentage\<close> by 100. A pixel that meets
  both the browning and the wilting test is tallied twice: the image of the single pixel
  \<open>(150, 60, 79)\<close> has a damage percentage of 200.
\<close>

theorem damagePercentage_above_100:
  "valid_image \<lparr> width = 1, height = 1, data = [150, 60, 79, 255] \<rparr>
   \<and> \<not> damagePercentage
          (analyzeImage \<lparr> width = 1, height = 1, data = [150, 60, 79, 255] \<rparr> 0 0) \<le> 100"
proof -
  let ?img = "\<lparr> width = 1, height = 1, data = [150, 60, 79, 255] \<rparr>"
  have v: "valid_image ?img" by (simp add: valid_image_def)
  have d: "damageTallySpec ?img = 2" by (simp add: damageTallySpec_def pixel_facts)
  have "dm_percentage (assessDamage ?img) = 200"
    unfolding assessDamage_fields d by (simp add: fdiv_def fmul_def)
  with v show ?thesis unfolding analyzeImage_fields by simp
qed

text \<open>
  C1, amended: for every image, \<open>blackSpotPercentage\<close> is in \<open>[0, 100]\<close>, \<open>damagePercentage\<close> is
  in \<open>[0, 200]\<close> and \<open>healthScore\<close> is in \<open>[0, 100]\<close>.
\<close>

theorem analysis_ranges:
  assumes "valid_image img"
  shows "0 \<le> blackSpotPercentage (analyzeImage img random elapsed)
       \<and> blackSpotPercentage (analyzeImage img random elapsed) \<le> 100
       \<and> 0 \<le> damagePercentage (analyzeImage img random elapsed)
       \<and> damagePercentage (analyzeImage img random elapsed) \<le> 200
       \<and> 0 \<le> healthScore (analyzeImage img random elapsed)
       \<and> healthScore (analyzeImage img random elapsed) \<le> 100"
  using bs_percentage_range [OF assms] dm_percentage_range [OF assms]
    calculateHealthScore_range [of "detectBlackSpots img" "assessDamage img"]
  by (simp add: analyzeImage_fields)

theorem analysis_ranges_witness:
  "valid_image \<lparr> width = 2, height = 1, data = [0, 0, 0, 255, 150, 60, 79, 255] \<rparr>
   \<and> blackSpotPercentage
        (analyzeImage \<lparr> width = 2, height = 1, data = [0, 0, 0, 255, 150, 60, 79, 255] \<rparr> 0 0) = 50
   \<and> damagePercentage
        (analyzeImage \<lparr> width = 2, height = 1, data = [0, 0, 0, 255, 150, 60, 79, 255] \<rparr> 0 0) = 100
   \<and> healthScore
        (analyzeImage \<lparr> width = 2, height = 1, data = [0, 0, 0, 255, 150, 60, 79, 255] \<rparr> 0 0) = 0
   \<and> healthScore
        (analyzeImage \<lparr> width = 2, height = 1, data = [0, 0, 0, 255, 150, 60, 79, 255] \<rparr> 0 0) \<le> 100"
proof -
  let ?img = "\<lparr> width = 2, height = 1, data = [0, 0, 0, 255, 150, 60, 79, 255] \<rparr>"
  have v: "valid_image ?img" by (simp add: valid_image_def)
  have n: "blackSpotPixelCountSpec ?img = 1"
    by (simp add: blackSpotPixelCountSpec_def isBlackSpot_exact [symmetric] pixel_facts)
  have d: "damageTallySpec ?img = 2" by (simp add: damageTallySpec_def pixel_facts)
  have t: "fl (1 / 10) \<le> 1 / 8" by (rule fl_tenth_le)
  have hb: "bs_hasBlackSpots (detectBlackSpots ?img)"
    unfolding detectBlackSpots_fields n using t by (simp add: fdiv_def fmul_def)
  have p: "bs_percentage (detectBlackSpots ?img) = 50"
    unfolding detectBlackSpots_fields n by (simp add: fdiv_def fmul_def)
  have hd: "dm_hasDamage (assessDamage ?img)"
    unfolding assessDamage_fields d by (simp add: fdiv_def fmul_def)
  have q: "dm_percentage (assessDamage ?img) = 100"
    unfolding assessDamage_fields d by (simp add: fdiv_def fmul_def)
  have a: "blackSpotPercentage (analyzeImage ?img 0 0) = 50"
    unfolding analyzeImage_fields by (rule p)
  have b: "damagePercentage (analyzeImage ?img 0 0) = 100"
    unfolding analyzeImage_fields by (rule q)
  have c: "healthScore (analyzeImage ?img 0 0) = 0"
    unfolding analyzeImage_fields calculateHealthScore_unfold
    using hb p hd q by (simp add: fmul_def fsub_def)
  from analysis_ranges [OF v, of 0 0] v a b c show ?thesis by simp
qed

text \<open>
  C2: the disease selector is a lookup in order. Each branch is stated with the negations
  of the branches before it: the Black Spot Disease entry capped at 0.95, the Powdery Mildew
  entry capped at 0.88, the Bacterial Leaf Spot entry capped at 0.82, the Healthy Plant
  entry at 0.95, and the Powdery Mildew entry capped at 0.75. An image analysed to 3 percent
  black spots and no damage selects Black Spot Disease; one analysed to no black spots and
  12 percent damage selects Powdery Mildew.
\<close>

theorem selectDisease_lookup:
  "(hasBlackSpots r \<and> blackSpotPercentage r > 2 \<longrightarrow>
      selectDiseaseBasedOnAnalysis r =
        blackSpotDisease \<lparr> DiseaseInfo.confidence :=
          min (fl (95 / 100)) (fdiv (ImageAnalysisResult.confidence r) 100) \<rparr>)
   \<and> (\<not> (hasBlackSpots r \<and> blackSpotPercentage r > 2)
        \<and> hasDamage r \<and> damagePercentage r > 10 \<longrightarrow>
      selectDiseaseBasedOnAnalysis r =
        powderyMildew \<lparr> DiseaseInfo.confidence :=
          min (fl (88 / 100)) (fdiv (ImageAnalysisResult.confidence r) 100) \<rparr>)
   \<and> (\<not> (hasBlackSpots r \<and> blackSpotPercentage r > 2)
        \<and> \<not> (hasDamage r \<and> damagePercentage r > 10) \<and> healthScore r < 60 \<longrightarrow>
      selectDiseaseBasedOnAnalysis r =
        bacterialLeafSpot \<lparr> DiseaseInfo.confidence :=
          min (fl (82 / 100)) (fdiv (ImageAnalysisResult.confidence r) 100) \<rparr>)
   \<and> (\<not> (hasBlackSpots r \<and> blackSpotPercentage r > 2)
        \<and> \<not> (hasDamage r \<and> damagePercentage r > 10) \<and> \<not> healthScore r < 60
        \<and> healthScore r \<ge> 85 \<longrightarrow>
      selectDiseaseBasedOnAnalysis r = healthyPlant r)
   \<and> (\<not> (hasBlackSpots r \<and> blackSpotPercentage r > 2)
        \<and> \<not> (hasDamage r \<and> damagePercentage r > 10) \<and> \<not> healthScore r < 60
        \<and> \<not> healthScore r \<ge> 85 \<longrightarrow>
      selectDiseaseBasedOnAnalysis r =
        powderyMildew \<lparr> DiseaseInfo.confidence :=
          min (fl (75 / 100)) (fdiv (ImageAnalysisResult.confidence r) 100) \<rparr>)
   \<and> name blackSpotDisease = ''Black Spot Disease''
   \<and> name powderyMildew = ''Powdery Mildew''
   \<and> name bacterialLeafSpot = ''Bacterial Leaf Spot''
   \<and> name (healthyPlant r) = ''Healthy Plant''
   \<and> DiseaseInfo.confidence (healthyPlant r) = fl (95 / 100)
   \<and> (valid_image img \<and> blackSpotPercentage (analyzeImage img random elapsed) = 3
        \<and> damagePercentage (analyzeImage img random elapsed) = 0 \<longrightarrow>
      name (selectDiseaseBasedOnAnalysis (analyzeImage img random elapsed))
        = ''Black Spot Disease'')
   \<and> (valid_image img \<and> blackSpotPercentage (analyzeImage img random elapsed) = 0
        \<and> damagePercentage (analyzeImage img random elapsed) = 12 \<longrightarrow>
      name (selectDiseaseBasedOnAnalysis (analyzeImage img random elapsed))
        = ''Powdery Mildew'')"
proof (intro conjI impI)
  show "name blackSpotDisease = ''Black Spot Disease''" by (rule disease_names)
  show "name powderyMildew = ''Powdery Mildew''" by (rule disease_names)
  show "name bacterialLeafSpot = ''Bacterial Leaf Spot''" by (rule disease_names)
  show "name (healthyPlant r) = ''Healthy Plant''" by (rule disease_names)
  show "DiseaseInfo.confidence (healthyPlant r) = fl (95 / 100)" by (rule disease_names)
qed (blast intro: select_branch1 select_branch2 select_branch3 select_branch4 select_branch5
      scenario_black_spot scenario_damage)+

theorem selectDisease_lookup_witness:
  "name (selectDiseaseBasedOnAnalysis (sampleResult True 3 False 0 91)) = ''Black Spot Disease''
   \<and> DiseaseInfo.confidence (selectDiseaseBasedOnAnalysis (sampleResult True 3 False 0 91))
       = fl (94 / 100)
   \<and> name (selectDiseaseBasedOnAnalysis (sampleResult False 0 True 12 76)) = ''Powdery Mildew''
   \<and> DiseaseInfo.confidence (selectDiseaseBasedOnAnalysis (sampleResult False 0 True 12 76))
       = fl (88 / 100)
   \<and> name (selectDiseaseBasedOnAnalysis (sampleResult False 0 False 0 55))
       = ''Bacterial Leaf Spot''
   \<and> DiseaseInfo.confidence (selectDiseaseBasedOnAnalysis (sampleResult False 0 False 0 55))
       = fl (82 / 100)
   \<and> name (selectDiseaseBasedOnAnalysis (sampleResult False 0 False 0 100)) = ''Healthy Plant''
   \<and> DiseaseInfo.confidence (selectDiseaseBasedOnAnalysis (sampleResult False 0 False 0 100))
       = fl (95 / 100)
   \<and> name (selectDiseaseBasedOnAnalysis (sampleResult False 0 True 8 84)) = ''Powdery Mildew''
   \<and> DiseaseInfo.confidence (selectDiseaseBasedOnAnalysis (sampleResult False 0 True 8 84))
       = fl (75 / 100)
   \<and> valid_image \<lparr> width = 10, height = 10,
        data = concat (replicate 3 [0, 0, 0, 255]) @
               concat (replicate 97 [128, 128, 128, 255]) \<rparr>
   \<and> name (selectDiseaseBasedOnAnalysis (analyzeImage \<lparr> width = 10, height = 10,
        data = concat (replicate 3 [0, 0, 0, 255]) @
               concat (replicate 97 [128, 128, 128, 255]) \<rparr> 0 0)) = ''Black Spot Disease''
   \<and> valid_image \<lparr> width = 5, height = 5,
        data = concat (replicate 3 [255, 200, 50, 255]) @
               concat (replicate 22 [128, 128, 128, 255]) \<rparr>
   \<and> name (selectDiseaseBasedOnAnalysis (analyzeImage \<lparr> width = 5, height = 5,
        data = concat (replicate 3 [255, 200, 50, 255]) @
               concat (replicate 22 [128, 128, 128, 255]) \<rparr> 0 0)) = ''Powdery Mildew''"
proof -
  let ?c = "\<lparr> width = 10, height = 10,
        data = concat (replicate 3 [0, 0, 0, 255]) @
               concat (replicate 97 [128, 128, 128, 255]) \<rparr>"
  let ?d = "\<lparr> width = 5, height = 5,
        data = concat (replicate 3 [255, 200, 50, 255]) @
               concat (replicate 22 [128, 128, 128, 255]) \<rparr>"
  have m1: "min (fl (95 / 100)) (fdiv 94 100) = fl (94 / 100)"
    unfolding fdiv_def by (rule min_absorb2) (rule fl_mono, simp)
  have m2: "min (fl (88 / 100)) (fdiv 94 100) = fl (88 / 100)"
    unfolding fdiv_def by (rule min_absorb1) (rule fl_mono, simp)
  have m3: "min (fl (82 / 100)) (fdiv 94 100) = fl (82 / 100)"
    unfolding fdiv_def by (rule min_absorb1) (rule fl_mono, simp)
  have m5: "min (fl (75 / 100)) (fdiv 94 100) = fl (75 / 100)"
    unfolding fdiv_def by (rule min_absorb1) (rule fl_mono, simp)
  have b1: "selectDiseaseBasedOnAnalysis (sampleResult True 3 False 0 91) =
      blackSpotDisease \<lparr> DiseaseInfo.confidence := fl (94 / 100) \<rparr>"
    using m1 selectDisease_lookup [of "sampleResult True 3 False 0 91" ?c 0 0]
    by (simp add: sampleResult_fields)
  have b2: "selectDiseaseBasedOnAnalysis (sampleResult False 0 True 12 76) =
      powderyMildew \<lparr> DiseaseInfo.confidence := fl (88 / 100) \<rparr>"
    using m2 selectDisease_lookup [of "sampleResult False 0 True 12 76" ?c 0 0]
    by (simp add: sampleResult_fields)
  have b3: "selectDiseaseBasedOnAnalysis (sampleResult False 0 False 0 55) =
      bacterialLeafSpot \<lparr> DiseaseInfo.confidence := fl (82 / 100) \<rparr>"
    using m3 selectDisease_lookup [of "sampleResult False 0 False 0 55" ?c 0 0]
    by (simp add: sampleResult_fields)
  have b4: "selectDiseaseBasedOnAnalysis (sampleResult False 0 False 0 100) =
      healthyPlant (sampleResult False 0 False 0 100)"
    using selectDisease_lookup [of "sampleResult False 0 False 0 100" ?c 0 0]
    by (simp add: sampleResult_fields)
  have b5: "selectDiseaseBasedOnAnalysis (sampleResult False 0 True 8 84) =
      powderyMildew \<lparr> DiseaseInfo.confidence := fl (75 / 100) \<rparr>"
    using m5 selectDisease_lookup [of "sampleResult False 0 True 8 84" ?c 0 0]
    by (simp add: sampleResult_fields)
  have c: "name (selectDiseaseBasedOnAnalysis (analyzeImage ?c 0 0)) = ''Black Spot Disease''"
    using selectDisease_lookup [of "sampleResult True 3 False 0 91" ?c 0 0]
      image_10x10(1,3,5)
    by (simp add: analyzeImage_fields)
  have d: "name (selectDiseaseBasedOnAnalysis (analyzeImage ?d 0 0)) = ''Powdery Mildew''"
    using selectDisease_lookup [of "sampleResult True 3 False 0 91" ?d 0 0]
      image_5x5(1,3,5)
    by (simp add: analyzeImage_fields)
  show ?thesis
    unfolding b1 b2 b3 b4 b5 c d
    using image_10x10(1) image_5x5(1) by (simp add: disease_names)
qed



text \<open>
  C4: \<open>determineOverallCondition\<close> is the first-match ladder, stated as the region of
  scores and flags of each label, and the \<open>overallCondition\<close> of an analysis result is this
  function of its \<open>healthScore\<close>, \<open>hasBlackSpots\<close> and \<open>hasDamage\<close>.
\<close>

theorem determineOverallCondition_ladder:
  "(determineOverallCondition hs bs dm = healthy \<longleftrightarrow> 85 \<le> hs \<and> \<not> bs \<and> \<not> dm)
   \<and> (determineOverallCondition hs bs dm = mild_damage \<longleftrightarrow> 70 \<le> hs \<and> (hs < 85 \<or> bs \<or> dm))
   \<and> (determineOverallCondition hs bs dm = moderate_damage \<longleftrightarrow> 50 \<le> hs \<and> hs < 70)
   \<and> (determineOverallCondition hs bs dm = severe_damage \<longleftrightarrow> 30 \<le> hs \<and> hs < 50)
   \<and> (determineOverallCondition hs bs dm = critical \<longleftrightarrow> hs < 30)
   \<and> overallCondition (analyzeImage img random elapsed) =
       determineOverallCondition (healthScore (analyzeImage img random elapsed))
         (hasBlackSpots (analyzeImage img random elapsed))
         (hasDamage (analyzeImage img random elapsed))"
  by (auto simp: determineOverallCondition_def analyzeImage_fields)

theorem determineOverallCondition_ladder_witness:
  "determineOverallCondition 90 True False = mild_damage
   \<and> determineOverallCondition 90 False False = healthy
   \<and> determineOverallCondition 69 False False = moderate_damage
   \<and> determineOverallCondition 30 False True = severe_damage
   \<and> determineOverallCondition 29 False False = critical"
  using determineOverallCondition_ladder [of 90 True False]
    determineOverallCondition_ladder [of 90 False False]
    determineOverallCondition_ladder [of 69 False False]
    determineOverallCondition_ladder [of 30 False True]
    determineOverallCondition_ladder [of 29 False False]
  by simp

text \<open>
  C5, as the specification states it, decides \<open>hasBlackSpots\<close> by the reported percentage and
  reports \<open>100 * count / totalPixels\<close> rounded to two decimals. The source compares the
  percentage before rounding: with 2 black pixels in 1920 the flag is set and the reported
  value is the double 0.1. And it computes \<open>(count / totalPixels) * 100\<close> in doubles: with
  23 black pixels in 160 the product is just below 14.375 and the reported value is 14.37,
  where \<open>100 * 23 / 160 = 14.375\<close> rounds to 14.38.
\<close>

theorem hasBlackSpots_not_from_reported_percentage:
  "valid_image \<lparr> width = 48, height = 40,
      data = concat (replicate 2 [0, 0, 0, 255]) @
             concat (replicate 1918 [128, 128, 128, 255]) \<rparr>
   \<and> hasBlackSpots (analyzeImage \<lparr> width = 48, height = 40,
      data = concat (replicate 2 [0, 0, 0, 255]) @
             concat (replicate 1918 [128, 128, 128, 255]) \<rparr> 0 0)
   \<and> \<not> blackSpotPercentage (analyzeImage \<lparr> width = 48, height = 40,
      data = concat (replicate 2 [0, 0, 0, 255]) @
             concat (replicate 1918 [128, 128, 128, 255]) \<rparr> 0 0) > fl (1 / 10)
   \<and> valid_image \<lparr> width = 16, height = 10,
      data = concat (replicate 23 [0, 0, 0, 255]) @
             concat (replicate 137 [128, 128, 128, 255]) \<rparr>
   \<and> blackSpotPercentage (analyzeImage \<lparr> width = 16, height = 10,
      data = concat (replicate 23 [0, 0, 0, 255]) @
             concat (replicate 137 [128, 128, 128, 255]) \<rparr> 0 0) = fl (1437 / 100)
   \<and> round ((100 * 23 / 160 :: rat) * 100) = 1438
   \<and> fl (1437 / 100) < fl (1438 / 100)"
proof -
  have e1: "fl (1437 / 100) = 8089590830664253 / 562949953421312"
    by (rule fl_evalI [where e = 3 and m = 8089590830664253]) simp_all
  have e2: "fl (719 / 50) = 8095220330198467 / 562949953421312"
    by (rule fl_evalI [where e = 3 and m = 8095220330198467]) simp_all
  have r: "round ((100 * 23 / 160 :: rat) * 100) = 1438" by (simp add: round_def floor_eq_iff)
  have l: "fl (1437 / 100) < fl (1438 / 100)" by (simp add: e1 e2)
  show ?thesis
    using image_48x40(1,2,3) image_16x10_black(1,3) r l by (simp add: analyzeImage_fields)
qed

text \<open>
  C5, amended: \<open>count\<close> is the number of pixels with brightness \<open>(r + g + b) / 3\<close> below 60
  and colour variation below 30; with \<open>p = (count / totalPixels) * 100\<close> computed in
  doubles, the reported \<open>blackSpotPercentage\<close> is \<open>Math.round(p * 100) / 100\<close>, \<open>hasBlackSpots\<close>
  holds iff \<open>p\<close> exceeds 0.1, and \<open>blackSpotCount\<close> is
  \<open>max 1 (ceil (count / (width * 0.02)))\<close> when \<open>hasBlackSpots\<close> and 0 otherwise; with no
  matching pixel the flag is false and the count is 0.
\<close>

theorem detectBlackSpots_spec:
  assumes "valid_image img"
  shows "blackSpotPercentage (analyzeImage img random elapsed) =
           roundTo2 (fmul (fdiv (of_nat (blackSpotPixelCountSpec img))
                                (of_nat (width img * height img))) 100)
       \<and> (hasBlackSpots (analyzeImage img random elapsed) \<longleftrightarrow>
           fmul (fdiv (of_nat (blackSpotPixelCountSpec img))
                      (of_nat (width img * height img))) 100 > fl (1 / 10))
       \<and> blackSpotCount (analyzeImage img random elapsed) =
           (if hasBlackSpots (analyzeImage img random elapsed)
            then max 1 \<lceil>fdiv (of_nat (blackSpotPixelCountSpec img))
                             (fmul (of_nat (width img)) (fl (2 / 100)))\<rceil>
            else 0)
       \<and> (blackSpotPixelCountSpec img = 0 \<longrightarrow>
            \<not> hasBlackSpots (analyzeImage img random elapsed)
            \<and> blackSpotCount (analyzeImage img random elapsed) = 0)
       \<and> fst (blackSpotLoop (data img) (0, 0)) = blackSpotPixelCountSpec img"
proof -
  have z: "\<not> fl (1 / 10) < 0" using fl_nonneg [of "1 / 10"] by simp
  show ?thesis
    unfolding analyzeImage_fields detectBlackSpots_fields roundTo2_eq Math_ceil_def
      fst_blackSpotLoop
    using z by (simp add: fops_numeral)
qed

theorem detectBlackSpots_spec_witness:
  "valid_image \<lparr> width = 8, height = 4,
      data = concat (replicate 3 [0, 0, 0, 255]) @
             concat (replicate 29 [128, 128, 128, 255]) \<rparr>
   \<and> blackSpotPixelCountSpec \<lparr> width = 8, height = 4,
      data = concat (replicate 3 [0, 0, 0, 255]) @
             concat (replicate 29 [128, 128, 128, 255]) \<rparr> = 3
   \<and> blackSpotPercentage (analyzeImage \<lparr> width = 8, height = 4,
      data = concat (replicate 3 [0, 0, 0, 255]) @
             concat (replicate 29 [128, 128, 128, 255]) \<rparr> 0 0) = fl (938 / 100)
   \<and> hasBlackSpots (analyzeImage \<lparr> width = 8, height = 4,
      data = concat (replicate 3 [0, 0, 0, 255]) @
             concat (replicate 29 [128, 128, 128, 255]) \<rparr> 0 0)
   \<and> blackSpotCount (analyzeImage \<lparr> width = 8, height = 4,
      data = concat (replicate 3 [0, 0, 0, 255]) @
             concat (replicate 29 [128, 128, 128, 255]) \<rparr> 0 0) = 19
   \<and> valid_image \<lparr> width = 58, height = 3,
      data = concat (replicate 145 [0, 0, 0, 255]) @
             concat (replicate 29 [128, 128, 128, 255]) \<rparr>
   \<and> blackSpotPixelCountSpec \<lparr> width = 58, height = 3,
      data = concat (replicate 145 [0, 0, 0, 255]) @
             concat (replicate 29 [128, 128, 128, 255]) \<rparr> = 145
   \<and> blackSpotCount (analyzeImage \<lparr> width = 58, height = 3,
      data = concat (replicate 145 [0, 0, 0, 255]) @
             concat (replicate 29 [128, 128, 128, 255]) \<rparr> 0 0) = 126
   \<and> valid_image \<lparr> width = 1, height = 1, data = [128, 128, 128, 255] \<rparr>
   \<and> blackSpotPixelCountSpec \<lparr> width = 1, height = 1, data = [128, 128, 128, 255] \<rparr> = 0
   \<and> \<not> hasBlackSpots (analyzeImage \<lparr> width = 1, height = 1, data = [128, 128, 128, 255] \<rparr> 0 0)
   \<and> blackSpotCount (analyzeImage \<lparr> width = 1, height = 1, data = [128, 128, 128, 255] \<rparr> 0 0)
       = 0"
proof -
  let ?g = "\<lparr> width = 1, height = 1, data = [128, 128, 128, 255] \<rparr>"
  have n: "blackSpotPixelCountSpec \<lparr> width = 8, height = 4,
      data = concat (replicate 3 [0, 0, 0, 255]) @
             concat (replicate 29 [128, 128, 128, 255]) \<rparr> = 3"
    by (simp add: two_tone_blackSpotPixelCount pixel_facts)
  have n': "blackSpotPixelCountSpec \<lparr> width = 58, height = 3,
      data = concat (replicate 145 [0, 0, 0, 255]) @
             concat (replicate 29 [128, 128, 128, 255]) \<rparr> = 145"
    by (simp add: two_tone_blackSpotPixelCount pixel_facts)
  have vg: "valid_image ?g" by (simp add: valid_image_def)
  have ng: "blackSpotPixelCountSpec ?g = 0"
    by (simp add: blackSpotPixelCountSpec_def isBlackSpot_exact [symmetric] pixel_facts)
  have a: "blackSpotPercentage (analyzeImage \<lparr> width = 8, height = 4,
      data = concat (replicate 3 [0, 0, 0, 255]) @
             concat (replicate 29 [128, 128, 128, 255]) \<rparr> 0 0) = fl (938 / 100)"
      "hasBlackSpots (analyzeImage \<lparr> width = 8, height = 4,
      data = concat (replicate 3 [0, 0, 0, 255]) @
             concat (replicate 29 [128, 128, 128, 255]) \<rparr> 0 0)"
      "blackSpotCount (analyzeImage \<lparr> width = 8, height = 4,
      data = concat (replicate 3 [0, 0, 0, 255]) @
             concat (replicate 29 [128, 128, 128, 255]) \<rparr> 0 0) = 19"
    using image_8x4(2,3,6) by (simp_all add: analyzeImage_fields)
  have b: "blackSpotCount (analyzeImage \<lparr> width = 58, height = 3,
      data = concat (replicate 145 [0, 0, 0, 255]) @
             concat (replicate 29 [128, 128, 128, 255]) \<rparr> 0 0) = 126"
    using image_58x3(6) by (simp add: analyzeImage_fields)
  have g: "\<not> hasBlackSpots (analyzeImage ?g 0 0) \<and> blackSpotCount (analyzeImage ?g 0 0) = 0"
    using detectBlackSpots_spec [OF vg, of 0 0] ng by blast
  show ?thesis using image_8x4(1) image_58x3(1) vg n n' ng a b g by simp
qed

text \<open>
  C6, as the specification states it, decides \<open>hasDamage\<close> by the reported percentage and
  reports \<open>100 * tally / totalPixels\<close> rounded to two decimals. The source compares the
  percentage before rounding: with a tally of 2 over 398 pixels the flag is set and the
  reported value is 0.5. And it computes \<open>(tally / totalPixels) * 100\<close> in doubles: with a
  tally of 23 over 160 pixels the reported value is 14.37, where \<open>100 * 23 / 160 = 14.375\<close>
  rounds to 14.38.
\<close>

theorem hasDamage_not_from_reported_percentage:
  "valid_image \<lparr> width = 199, height = 2,
      data = concat (replicate 2 [255, 200, 50, 255]) @
             concat (replicate 396 [128, 128, 128, 255]) \<rparr>
   \<and> hasDamage (analyzeImage \<lparr> width = 199, height = 2,
      data = concat (replicate 2 [255, 200, 50, 255]) @
             concat (replicate 396 [128, 128, 128, 255]) \<rparr> 0 0)
   \<and> \<not> damagePercentage (analyzeImage \<lparr> width = 199, height = 2,
      data = concat (replicate 2 [255, 200, 50, 255]) @
             concat (replicate 396 [128, 128, 128, 255]) \<rparr> 0 0) > fl (5 / 10)
   \<and> valid_image \<lparr> width = 16, height = 10,
      data = concat (replicate 23 [255, 200, 50, 255]) @
             concat (replicate 137 [128, 128, 128, 255]) \<rparr>
   \<and> damagePercentage (analyzeImage \<lparr> width = 16, height = 10,
      data = concat (replicate 23 [255, 200, 50, 255]) @
             concat (replicate 137 [128, 128, 128, 255]) \<rparr> 0 0) = fl (1437 / 100)
   \<and> round ((100 * 23 / 160 :: rat) * 100) = 1438
   \<and> fl (1437 / 100) < fl (1438 / 100)"
proof -
  have e1: "fl (1437 / 100) = 8089590830664253 / 562949953421312"
    by (rule fl_evalI [where e = 3 and m = 8089590830664253]) simp_all
  have e2: "fl (719 / 50) = 8095220330198467 / 562949953421312"
    by (rule fl_evalI [where e = 3 and m = 8095220330198467]) simp_all
  have r: "round ((100 * 23 / 160 :: rat) * 100) = 1438" by (simp add: round_def floor_eq_iff)
  have l: "fl (1437 / 100) < fl (1438 / 100)" by (simp add: e1 e2)
  show ?thesis
    using image_199x2(1,4,5) image_16x10_yellow(1,5) r l by (simp add: analyzeImage_fields)
qed

text \<open>
  C6, amended: the damage tally adds, for each pixel, the number of the four conditions
  it meets (a pixel meeting two is counted twice); with \<open>p = (tally / totalPixels) * 100\<close>
  computed in doubles, the reported \<open>damagePercentage\<close> is \<open>Math.round(p * 100) / 100\<close> and
  \<open>hasDamage\<close> holds iff \<open>p\<close> exceeds 0.5.
\<close>

theorem assessDamage_spec:
  assumes "valid_image img"
  shows "damagePercentage (analyzeImage img random elapsed) =
           roundTo2 (fmul (fdiv (of_nat (damageTallySpec img))
                                (of_nat (width img * height img))) 100)
       \<and> (hasDamage (analyzeImage img random elapsed) \<longleftrightarrow>
           fmul (fdiv (of_nat (damageTallySpec img))
                      (of_nat (width img * height img))) 100 > fl (5 / 10))
       \<and> damageLoop (data img) 0 = damageTallySpec img
       \<and> damageMatchesSpec (150, 60, 79) = 2"
  unfolding analyzeImage_fields assessDamage_fields roundTo2_eq damageLoop_tally
  by (simp add: pixel_facts)

theorem assessDamage_spec_witness:
  "valid_image \<lparr> width = 5, height = 5,
      data = concat (replicate 3 [150, 60, 79, 255]) @
             concat (replicate 22 [128, 128, 128, 255]) \<rparr>
   \<and> damageTallySpec \<lparr> width = 5, height = 5,
      data = concat (replicate 3 [150, 60, 79, 255]) @
             concat (replicate 22 [128, 128, 128, 255]) \<rparr> = 6
   \<and> damagePercentage (analyzeImage \<lparr> width = 5, height = 5,
      data = concat (replicate 3 [150, 60, 79, 255]) @
             concat (replicate 22 [128, 128, 128, 255]) \<rparr> 0 0) = 24
   \<and> hasDamage (analyzeImage \<lparr> width = 5, height = 5,
      data = concat (replicate 3 [150, 60, 79, 255]) @
             concat (replicate 22 [128, 128, 128, 255]) \<rparr> 0 0)"
proof -
  have n: "damageTallySpec \<lparr> width = 5, height = 5,
      data = concat (replicate 3 [150, 60, 79, 255]) @
             concat (replicate 22 [128, 128, 128, 255]) \<rparr> = 6" by (simp add: two_tone_damageTally pixel_facts)
  have a: "damagePercentage (analyzeImage \<lparr> width = 5, height = 5,
      data = concat (replicate 3 [150, 60, 79, 255]) @
             concat (replicate 22 [128, 128, 128, 255]) \<rparr> 0 0) = 24"
      "hasDamage (analyzeImage \<lparr> width = 5, height = 5,
      data = concat (replicate 3 [150, 60, 79, 255]) @
             concat (replicate 22 [128, 128, 128, 255]) \<rparr> 0 0)"
    using image_5x5_both(4,5) by (simp_all add: analyzeImage_fields)
  from assessDamage_spec [OF image_5x5_both(1), of 0 0] show ?thesis
    using image_5x5_both(1) n a by simp
qed

text \<open>
  C7: the two classifiers disagree on an analysis result with \<open>healthScore = 72\<close>, black
  spots and \<open>blackSpotPercentage \<ge> 5\<close>: the condition is \<open>mild_damage\<close>, the urgency is
  medium. The result is the analysis of an image.
\<close>

theorem classifiers_disagree:
  "\<exists>img random elapsed.
     valid_image img
     \<and> healthScore (analyzeImage img random elapsed) = 72
     \<and> hasBlackSpots (analyzeImage img random elapsed)
     \<and> 5 \<le> blackSpotPercentage (analyzeImage img random elapsed)
     \<and> overallCondition (analyzeImage img random elapsed) = mild_damage
     \<and> PlantHealthAssessment.urgency (assessPlantHealth (analyzeImage img random elapsed))
         = urgency_medium"
proof -
  let ?img = "\<lparr> width = 8, height = 4,
      data = concat (replicate 3 [0, 0, 0, 255]) @
             concat (replicate 29 [128, 128, 128, 255]) \<rparr>"
  let ?a = "analyzeImage ?img 0 0"
  note f = image_8x4
  have e1: "fl (469 / 50) = 5280470563091907 / 562949953421312"
    by (rule fl_evalI [where e = 3 and m = 5280470563091907]) simp_all
  have "valid_image ?img" by (rule f)
  moreover have hs: "healthScore ?a = 72" by (simp add: analyzeImage_fields f)
  moreover have hb: "hasBlackSpots ?a" by (simp add: analyzeImage_fields f)
  moreover have p: "blackSpotPercentage ?a = 5280470563091907 / 562949953421312"
    by (simp add: analyzeImage_fields f e1)
  moreover have "overallCondition ?a = mild_damage"
    by (simp add: analyzeImage_fields f determineOverallCondition_def)
  moreover have "PlantHealthAssessment.urgency (assessPlantHealth ?a) = urgency_medium"
    unfolding assessPlantHealth_def by (simp add: hs hb p)
  ultimately show ?thesis by (intro exI [of _ ?img] exI [of _ 0]) simp
qed

theorem classifiers_disagree_witness:
  "\<exists>r. healthScore r = 72 \<and> hasBlackSpots r \<and> 5 \<le> blackSpotPercentage r
     \<and> determineOverallCondition (healthScore r) (hasBlackSpots r) (hasDamage r) = mild_damage
     \<and> PlantHealthAssessment.urgency (assessPlantHealth r) = urgency_medium"
proof -
  from classifiers_disagree obtain img random elapsed where
    a: "healthScore (analyzeImage img random elapsed) = 72"
       "hasBlackSpots (analyzeImage img random elapsed)"
       "5 \<le> blackSpotPercentage (analyzeImage img random elapsed)"
       "overallCondition (analyzeImage img random elapsed) = mild_damage"
       "PlantHealthAssessment.urgency (assessPlantHealth (analyzeImage img random elapsed))
         = urgency_medium"
    by blast
  have "determineOverallCondition (healthScore (analyzeImage img random elapsed))
          (hasBlackSpots (analyzeImage img random elapsed))
          (hasDamage (analyzeImage img random elapsed)) = mild_damage"
    using a(4) by (simp add: analyzeImage_fields)
  with a show ?thesis by blast
qed

text \<open>
  C8: with the black-spot flag, the damage flag and the damage percentage fixed, the
  health score does not increase when \<open>blackSpotPercentage\<close> increases.
\<close>

theorem calculateHealthScore_antimono:
  assumes "bs_hasBlackSpots b2 = bs_hasBlackSpots b1"
      and "bs_percentage b1 \<le> bs_percentage b2"
  shows "calculateHealthScore b2 damage \<le> calculateHealthScore b1 damage"
proof -
  define h1 where "h1 b =
      (if bs_hasBlackSpots b then fsub 100 (min (fmul (bs_percentage b) 3) 40) else 100)"
    for b :: BlackSpotAnalysis
  define h2 where "h2 b =
      (if dm_hasDamage damage then fsub (h1 b) (min (fmul (dm_percentage damage) 2) 50)
       else h1 b)"
    for b :: BlackSpotAnalysis
  define h3 where "h3 b =
      (if bs_percentage b > 5 \<and> dm_percentage damage > 10 then fsub (h2 b) 15 else h2 b)"
    for b :: BlackSpotAnalysis
  have code: "calculateHealthScore b damage = max 0 (Math_round (h3 b))"
    for b :: BlackSpotAnalysis
    unfolding calculateHealthScore_unfold Let_def h3_def h2_def h1_def ..
  have "fmul (bs_percentage b1) 3 \<le> fmul (bs_percentage b2) 3"
    unfolding fmul_def using assms(2) by (intro fl_mono) simp
  then have "100 - min (fmul (bs_percentage b2) 3) 40 \<le> 100 - min (fmul (bs_percentage b1) 3) 40"
    by (simp add: min_def)
  then have "fsub 100 (min (fmul (bs_percentage b2) 3) 40)
      \<le> fsub 100 (min (fmul (bs_percentage b1) 3) 40)"
    unfolding fsub_def by (rule fl_mono)
  then have 1: "h1 b2 \<le> h1 b1" unfolding h1_def using assms(1) by simp
  then have "fsub (h1 b2) c \<le> fsub (h1 b1) c" for c
    unfolding fsub_def by (intro fl_mono) simp
  then have 2: "h2 b2 \<le> h2 b1" unfolding h2_def using 1 by simp
  have r1: "fl (h1 b) = h1 b" for b :: BlackSpotAnalysis
    unfolding h1_def by (simp add: fsub_def fl_idem)
  have r2: "fl (h2 b) = h2 b" for b :: BlackSpotAnalysis
    unfolding h2_def by (simp add: fsub_def fl_idem r1)
  have d: "fsub (h2 b2) 15 \<le> h2 b2"
  proof -
    have "fl (h2 b2 - 15) \<le> fl (h2 b2)" by (intro fl_mono) simp
    then show ?thesis by (simp add: fsub_def r2)
  qed
  have m: "fsub (h2 b2) 15 \<le> fsub (h2 b1) 15"
    unfolding fsub_def using 2 by (intro fl_mono) simp
  have 3: "h3 b2 \<le> h3 b1"
  proof (cases "bs_percentage b1 > 5 \<and> dm_percentage damage > 10")
    case True
    then have "bs_percentage b2 > 5 \<and> dm_percentage damage > 10" using assms(2) by simp
    with True m show ?thesis by (simp add: h3_def)
  next
    case False
    show ?thesis
    proof (cases "bs_percentage b2 > 5 \<and> dm_percentage damage > 10")
      case True
      have "fsub (h2 b2) 15 \<le> h2 b1" using d 2 by (rule order_trans)
      with True False show ?thesis by (simp add: h3_def)
    next
      case n: False
      with False 2 assms(2) show ?thesis by (auto simp: h3_def)
    qed
  qed
  then have "Math_round (h3 b2) \<le> Math_round (h3 b1)" by (rule Math_round_mono)
  then show ?thesis unfolding code by simp
qed

theorem calculateHealthScore_antimono_witness:
  "calculateHealthScore \<lparr> bs_hasBlackSpots = True, bs_count = 1, bs_percentage = 6 \<rparr>
       \<lparr> dm_hasDamage = True, dm_percentage = 12 \<rparr>
   \<le> calculateHealthScore \<lparr> bs_hasBlackSpots = True, bs_count = 1, bs_percentage = 5 \<rparr>
       \<lparr> dm_hasDamage = True, dm_percentage = 12 \<rparr>
   \<and> calculateHealthScore \<lparr> bs_hasBlackSpots = True, bs_count = 1, bs_percentage = 6 \<rparr>
       \<lparr> dm_hasDamage = True, dm_percentage = 12 \<rparr> = 43
   \<and> calculateHealthScore \<lparr> bs_hasBlackSpots = True, bs_count = 1, bs_percentage = 5 \<rparr>
       \<lparr> dm_hasDamage = True, dm_percentage = 12 \<rparr> = 61"
proof -
  have a: "calculateHealthScore \<lparr> bs_hasBlackSpots = True, bs_count = 1, bs_percentage = 6 \<rparr>
       \<lparr> dm_hasDamage = True, dm_percentage = 12 \<rparr> = 43"
    by (simp add: calculateHealthScore_unfold fmul_def fsub_def)
  have b: "calculateHealthScore \<lparr> bs_hasBlackSpots = True, bs_count = 1, bs_percentage = 5 \<rparr>
       \<lparr> dm_hasDamage = True, dm_percentage = 12 \<rparr> = 61"
    by (simp add: calculateHealthScore_unfold fmul_def fsub_def)
  show ?thesis
    using calculateHealthScore_antimono
      [of "\<lparr> bs_hasBlackSpots = True, bs_count = 1, bs_percentage = 6 \<rparr>"
          "\<lparr> bs_hasBlackSpots = True, bs_count = 1, bs_percentage = 5 \<rparr>"
          "\<lparr> dm_hasDamage = True, dm_percentage = 12 \<rparr>"] a b
    by simp
qed

text \<open>
  C9: an analysis result whose condition is \<open>healthy\<close> selects the Healthy Plant entry
  with confidence 0.95. The converse fails: an image with black spots at 2 percent and a
  score of 94 selects the Healthy Plant entry while its condition is \<open>mild_damage\<close>.
\<close>

theorem healthy_condition_selects_healthy_plant:
  "(overallCondition r = determineOverallCondition (healthScore r) (hasBlackSpots r) (hasDamage r)
      \<and> overallCondition r = healthy \<longrightarrow>
    selectDiseaseBasedOnAnalysis r = healthyPlant r
      \<and> name (selectDiseaseBasedOnAnalysis r) = ''Healthy Plant''
      \<and> DiseaseInfo.confidence (selectDiseaseBasedOnAnalysis r) = fl (95 / 100))
   \<and> (\<exists>img random elapsed.
        valid_image img
        \<and> hasBlackSpots (analyzeImage img random elapsed)
        \<and> blackSpotPercentage (analyzeImage img random elapsed) \<le> 2
        \<and> 85 \<le> healthScore (analyzeImage img random elapsed)
        \<and> selectDiseaseBasedOnAnalysis (analyzeImage img random elapsed)
            = healthyPlant (analyzeImage img random elapsed)
        \<and> overallCondition (analyzeImage img random elapsed) = mild_damage)"
proof (intro conjI impI)
  assume a: "overallCondition r
      = determineOverallCondition (healthScore r) (hasBlackSpots r) (hasDamage r)
      \<and> overallCondition r = healthy"
  then have "determineOverallCondition (healthScore r) (hasBlackSpots r) (hasDamage r) = healthy"
    by metis
  then have h: "85 \<le> healthScore r" "\<not> hasBlackSpots r" "\<not> hasDamage r"
    by (simp_all add: determineOverallCondition_def split: if_splits)
  have s: "selectDiseaseBasedOnAnalysis r = healthyPlant r"
    using h by (intro select_branch4) simp_all
  show "selectDiseaseBasedOnAnalysis r = healthyPlant r" by (rule s)
  show "name (selectDiseaseBasedOnAnalysis r) = ''Healthy Plant''"
    by (simp add: s disease_names)
  show "DiseaseInfo.confidence (selectDiseaseBasedOnAnalysis r) = fl (95 / 100)"
    by (simp add: s disease_names)
next
  let ?img = "\<lparr> width = 10, height = 10,
      data = concat (replicate 2 [0, 0, 0, 255]) @
             concat (replicate 98 [128, 128, 128, 255]) \<rparr>"
  let ?a = "analyzeImage ?img 0 0"
  note i = image_10x10_two
  have f: "hasBlackSpots ?a" "blackSpotPercentage ?a = 2" "\<not> hasDamage ?a"
    "damagePercentage ?a = 0" "healthScore ?a = 94"
    using i by (simp_all add: analyzeImage_fields)
  have s: "selectDiseaseBasedOnAnalysis ?a = healthyPlant ?a"
    by (rule select_branch4) (simp_all add: f)
  have c: "overallCondition ?a = mild_damage"
    using i by (simp add: analyzeImage_fields determineOverallCondition_def)
  show "\<exists>img random elapsed.
        valid_image img
        \<and> hasBlackSpots (analyzeImage img random elapsed)
        \<and> blackSpotPercentage (analyzeImage img random elapsed) \<le> 2
        \<and> 85 \<le> healthScore (analyzeImage img random elapsed)
        \<and> selectDiseaseBasedOnAnalysis (analyzeImage img random elapsed)
            = healthyPlant (analyzeImage img random elapsed)
        \<and> overallCondition (analyzeImage img random elapsed) = mild_damage"
    using i(1) f s c by (intro exI [of _ ?img] exI [of _ 0]) simp
qed

theorem healthy_condition_selects_healthy_plant_witness:
  "overallCondition (sampleResult False 0 False 0 100) = healthy
   \<and> selectDiseaseBasedOnAnalysis (sampleResult False 0 False 0 100)
       = healthyPlant (sampleResult False 0 False 0 100)
   \<and> name (selectDiseaseBasedOnAnalysis (sampleResult False 0 False 0 100)) = ''Healthy Plant''
   \<and> DiseaseInfo.confidence (selectDiseaseBasedOnAnalysis (sampleResult False 0 False 0 100))
       = fl (95 / 100)"
proof -
  have c: "overallCondition (sampleResult False 0 False 0 100) = healthy"
    by (simp add: sampleResult_fields determineOverallCondition_def)
  have d: "overallCondition (sampleResult False 0 False 0 100) =
      determineOverallCondition (healthScore (sampleResult False 0 False 0 100))
        (hasBlackSpots (sampleResult False 0 False 0 100))
        (hasDamage (sampleResult False 0 False 0 100))"
    by (simp add: sampleResult_fields)
  from healthy_condition_selects_healthy_plant [of "sampleResult False 0 False 0 100"] c d
  show ?thesis by (simp add: disease_names)
qed

text \<open>
  C10: the image quality of every image is in \<open>[50, 95]\<close>: a base of 50, a sharpness
  component in \<open>[0, 30]\<close> and a contrast component in \<open>[0, 20]\<close> added in turn, capped at 95.
\<close>

theorem imageQuality_range:
  assumes "valid_image img"
  shows "50 \<le> imageQuality (analyzeImage img random elapsed)
       \<and> imageQuality (analyzeImage img random elapsed) \<le> 95
       \<and> (let s = min (fmul (fmul (fdiv (of_nat (fst (qualityLoop img)))
                                         (of_nat (width img * height img))) 100) 2) 30;
               c = min (fdiv (fdiv (snd (qualityLoop img))
                                   (of_nat (width img * height img))) 5) 20
           in 0 \<le> s \<and> s \<le> 30 \<and> 0 \<le> c \<and> c \<le> 20
              \<and> imageQuality (analyzeImage img random elapsed) = min (fadd (fadd 50 s) c) 95)"
proof -
  define s where
    "s = min (fmul (fmul (fdiv (of_nat (fst (qualityLoop img)))
                               (of_nat (width img * height img))) 100) 2) (30 :: rat)"
  define c where
    "c = min (fdiv (fdiv (snd (qualityLoop img)) (of_nat (width img * height img))) 5) (20 :: rat)"
  have q: "imageQuality (analyzeImage img random elapsed) = min (fadd (fadd 50 s) c) 95"
    by (simp add: analyzeImage_fields assessImageQuality_unfold s_def c_def)
  have "0 \<le> fdiv (of_nat (fst (qualityLoop img))) (of_nat (width img * height img))"
    unfolding fdiv_def by (intro fl_nonneg) simp
  then have "0 \<le> fmul (fdiv (of_nat (fst (qualityLoop img)))
      (of_nat (width img * height img))) 100"
    unfolding fmul_def by (intro fl_nonneg) simp
  then have "0 \<le> fmul (fmul (fdiv (of_nat (fst (qualityLoop img)))
      (of_nat (width img * height img))) 100) 2"
    unfolding fmul_def [of _ 2] by (intro fl_nonneg) simp
  then have s: "0 \<le> s" "s \<le> 30" by (simp_all add: s_def)
  have "0 \<le> fdiv (snd (qualityLoop img)) (of_nat (width img * height img))"
    unfolding fdiv_def using qualityLoop_nonneg [of img] by (intro fl_nonneg) simp
  then have "0 \<le> fdiv (fdiv (snd (qualityLoop img)) (of_nat (width img * height img))) 5"
    unfolding fdiv_def [of _ 5] by (intro fl_nonneg) simp
  then have c: "0 \<le> c" "c \<le> 20" by (simp_all add: c_def)
  have "50 \<le> fadd 50 s" unfolding fadd_def using s(1) by (intro fl_ge) simp_all
  then have "50 \<le> fadd (fadd 50 s) c" unfolding fadd_def [of _ c] using c(1)
    by (intro fl_ge) simp_all
  then have "50 \<le> min (fadd (fadd 50 s) c) 95" "min (fadd (fadd 50 s) c) 95 \<le> 95" by simp_all
  with q s c show ?thesis unfolding Let_def s_def [symmetric] c_def [symmetric] by simp
qed

theorem imageQuality_range_witness:
  "valid_image \<lparr> width = 3, height = 3,
      data = [0, 0, 0, 255, 0, 0, 0, 255, 0, 0, 0, 255,
              0, 0, 0, 255, 200, 200, 200, 255, 0, 0, 0, 255,
              0, 0, 0, 255, 0, 0, 0, 255, 0, 0, 0, 255] \<rparr>
   \<and> imageQuality (analyzeImage \<lparr> width = 3, height = 3,
      data = [0, 0, 0, 255, 0, 0, 0, 255, 0, 0, 0, 255,
              0, 0, 0, 255, 200, 200, 200, 255, 0, 0, 0, 255,
              0, 0, 0, 255, 0, 0, 0, 255, 0, 0, 0, 255] \<rparr> 0 0) = fl (730 / 9)
   \<and> 50 \<le> imageQuality (analyzeImage \<lparr> width = 3, height = 3,
      data = [0, 0, 0, 255, 0, 0, 0, 255, 0, 0, 0, 255,
              0, 0, 0, 255, 200, 200, 200, 255, 0, 0, 0, 255,
              0, 0, 0, 255, 0, 0, 0, 255, 0, 0, 0, 255] \<rparr> 0 0)
   \<and> imageQuality (analyzeImage \<lparr> width = 3, height = 3,
      data = [0, 0, 0, 255, 0, 0, 0, 255, 0, 0, 0, 255,
              0, 0, 0, 255, 200, 200, 200, 255, 0, 0, 0, 255,
              0, 0, 0, 255, 0, 0, 0, 255, 0, 0, 0, 255] \<rparr> 0 0) \<le> 95
   \<and> valid_image \<lparr> width = 3, height = 3,
      data = [0, 0, 0, 255, 0, 0, 0, 255, 0, 0, 0, 255,
              0, 0, 0, 255, 50, 0, 0, 255, 1, 0, 0, 255,
              0, 0, 0, 255, 9, 0, 0, 255, 0, 0, 0, 255] \<rparr>
   \<and> fst (qualityLoop \<lparr> width = 3, height = 3,
      data = [0, 0, 0, 255, 0, 0, 0, 255, 0, 0, 0, 255,
              0, 0, 0, 255, 50, 0, 0, 255, 1, 0, 0, 255,
              0, 0, 0, 255, 9, 0, 0, 255, 0, 0, 0, 255] \<rparr>) = 1
   \<and> 72 < imageQuality (analyzeImage \<lparr> width = 3, height = 3,
      data = [0, 0, 0, 255, 0, 0, 0, 255, 0, 0, 0, 255,
              0, 0, 0, 255, 50, 0, 0, 255, 1, 0, 0, 255,
              0, 0, 0, 255, 9, 0, 0, 255, 0, 0, 0, 255] \<rparr> 0 0)
   \<and> imageQuality (analyzeImage \<lparr> width = 3, height = 3,
      data = [0, 0, 0, 255, 0, 0, 0, 255, 0, 0, 0, 255,
              0, 0, 0, 255, 50, 0, 0, 255, 1, 0, 0, 255,
              0, 0, 0, 255, 9, 0, 0, 255, 0, 0, 0, 255] \<rparr> 0 0) < 73"
proof -
  have u: "[Suc 0 ..< 2] = [Suc 0]" by (simp add: upt_conv_Cons)
  have va: "valid_image \<lparr> width = 3, height = 3,
      data = [0, 0, 0, 255, 0, 0, 0, 255, 0, 0, 0, 255,
              0, 0, 0, 255, 200, 200, 200, 255, 0, 0, 0, 255,
              0, 0, 0, 255, 0, 0, 0, 255, 0, 0, 0, 255] \<rparr>" by (simp add: valid_image_def)
  have vb: "valid_image \<lparr> width = 3, height = 3,
      data = [0, 0, 0, 255, 0, 0, 0, 255, 0, 0, 0, 255,
              0, 0, 0, 255, 50, 0, 0, 255, 1, 0, 0, 255,
              0, 0, 0, 255, 9, 0, 0, 255, 0, 0, 0, 255] \<rparr>" by (simp add: valid_image_def)
  have a1: "fdiv 600 3 = 200"
    unfolding fdiv_def by (rule fl_exactI [where m = 200 and k = 0]) simp_all
  have a2: "fdiv 0 3 = 0"
    unfolding fdiv_def by simp
  have a3: "fdiv 0 3 = 0"
    unfolding fdiv_def by simp
  have a4: "fsub 200 0 = 200"
    unfolding fsub_def by (rule fl_exactI [where m = 200 and k = 0]) simp_all
  have a5: "fsub 200 0 = 200"
    unfolding fsub_def by (rule fl_exactI [where m = 200 and k = 0]) simp_all
  have a6: "fadd 200 200 = 400"
    unfolding fadd_def by (rule fl_exactI [where m = 400 and k = 0]) simp_all
  have a7: "fadd 0 400 = 400"
    unfolding fadd_def by (rule fl_exactI [where m = 400 and k = 0]) simp_all
  have a8: "fdiv 1 9 = 2001599834386887 / 18014398509481984"
    unfolding fdiv_def by (rule fl_evalI [where e = "- 4" and m = 8006399337547548]) simp_all
  have a9: "fmul (2001599834386887 / 18014398509481984) 100 = 3127499741229511 / 281474976710656"
    unfolding fmul_def by (rule fl_evalI [where e = 3 and m = 6254999482459022]) simp_all
  have a10: "fmul (3127499741229511 / 281474976710656) 2 = 3127499741229511 / 140737488355328"
    unfolding fmul_def by (rule fl_exactI [where m = 3127499741229511 and k = "- 47"]) simp_all
  have a11: "fdiv 400 9 = 3127499741229511 / 70368744177664"
    unfolding fdiv_def by (rule fl_evalI [where e = 5 and m = 6254999482459022]) simp_all
  have a12: "fdiv (3127499741229511 / 70368744177664) 5 = 2501999792983609 / 281474976710656"
    unfolding fdiv_def by (rule fl_evalI [where e = 3 and m = 5003999585967218]) simp_all
  have a13: "fadd 50 (3127499741229511 / 140737488355328) = 1270546769874489 / 17592186044416"
    unfolding fadd_def by (rule fl_evalI [where e = 6 and m = 5082187079497956]) simp_all
  have a14: "fadd (1270546769874489 / 17592186044416) (2501999792983609 / 281474976710656) = 2853843513871929 / 35184372088832"
    unfolding fadd_def by (rule fl_evalI [where e = 6 and m = 5707687027743858]) simp_all
  have b1: "fdiv 50 3 = 4691249611844267 / 281474976710656"
    unfolding fdiv_def by (rule fl_evalI [where e = 4 and m = 4691249611844267]) simp_all
  have b2: "fdiv 1 3 = 6004799503160661 / 18014398509481984"
    unfolding fdiv_def by (rule fl_evalI [where e = "- 2" and m = 6004799503160661]) simp_all
  have b3: "fdiv 9 3 = 3"
    unfolding fdiv_def by (rule fl_exactI [where m = 3 and k = 0]) simp_all
  have b4: "fsub (4691249611844267 / 281474976710656) (6004799503160661 / 18014398509481984) = 2298712309803691 / 140737488355328"
    unfolding fsub_def by (rule fl_evalI [where e = 4 and m = 4597424619607382]) simp_all
  have b5: "fsub (4691249611844267 / 281474976710656) 3 = 3846824681712299 / 281474976710656"
    unfolding fsub_def by (rule fl_exactI [where m = 3846824681712299 and k = "- 48"]) simp_all
  have b6: "fadd (2298712309803691 / 140737488355328) (3846824681712299 / 281474976710656) = 8444249301319681 / 281474976710656"
    unfolding fadd_def by (rule fl_exactI [where m = 8444249301319681 and k = "- 48"]) simp_all
  have b7: "fadd 0 (8444249301319681 / 281474976710656) = 8444249301319681 / 281474976710656"
    unfolding fadd_def by (rule fl_exactI [where m = 8444249301319681 and k = "- 48"]) simp_all
  have b8: "fdiv 1 9 = 2001599834386887 / 18014398509481984"
    unfolding fdiv_def by (rule fl_evalI [where e = "- 4" and m = 8006399337547548]) simp_all
  have b9: "fmul (2001599834386887 / 18014398509481984) 100 = 3127499741229511 / 281474976710656"
    unfolding fmul_def by (rule fl_evalI [where e = 3 and m = 6254999482459022]) simp_all
  have b10: "fmul (3127499741229511 / 281474976710656) 2 = 3127499741229511 / 140737488355328"
    unfolding fmul_def by (rule fl_exactI [where m = 3127499741229511 and k = "- 47"]) simp_all
  have b11: "fdiv (8444249301319681 / 281474976710656) 9 = 1876499844737707 / 562949953421312"
    unfolding fdiv_def by (rule fl_evalI [where e = 1 and m = 7505999378950828]) simp_all
  have b12: "fdiv (1876499844737707 / 562949953421312) 5 = 3002399751580331 / 4503599627370496"
    unfolding fdiv_def by (rule fl_evalI [where e = "- 1" and m = 6004799503160662]) simp_all
  have b13: "fadd 50 (3127499741229511 / 140737488355328) = 1270546769874489 / 17592186044416"
    unfolding fadd_def by (rule fl_evalI [where e = 6 and m = 5082187079497956]) simp_all
  have b14: "fadd (1270546769874489 / 17592186044416) (3002399751580331 / 4503599627370496) = 5129099575616399 / 70368744177664"
    unfolding fadd_def by (rule fl_evalI [where e = 6 and m = 5129099575616399]) simp_all
  have v: "fl (730 / 9) = 2853843513871929 / 35184372088832"
    by (rule fl_evalI [where e = 6 and m = 5707687027743858]) simp_all
  have la: "qualityLoop \<lparr> width = 3, height = 3,
      data = [0, 0, 0, 255, 0, 0, 0, 255, 0, 0, 0, 255,
              0, 0, 0, 255, 200, 200, 200, 255, 0, 0, 0, 255,
              0, 0, 0, 255, 0, 0, 0, 255, 0, 0, 0, 255] \<rparr> = (1, 400)"
    by (simp add: qualityLoop_def qualityStep_def Let_def u a1 a2 a3 a4 a5 a6 a7)
  have lb: "qualityLoop \<lparr> width = 3, height = 3,
      data = [0, 0, 0, 255, 0, 0, 0, 255, 0, 0, 0, 255,
              0, 0, 0, 255, 50, 0, 0, 255, 1, 0, 0, 255,
              0, 0, 0, 255, 9, 0, 0, 255, 0, 0, 0, 255] \<rparr> = (1, 8444249301319681 / 281474976710656)"
    by (simp add: qualityLoop_def qualityStep_def Let_def u b1 b2 b3 b4 b5 b6 b7)
  have qa: "imageQuality (analyzeImage \<lparr> width = 3, height = 3,
      data = [0, 0, 0, 255, 0, 0, 0, 255, 0, 0, 0, 255,
              0, 0, 0, 255, 200, 200, 200, 255, 0, 0, 0, 255,
              0, 0, 0, 255, 0, 0, 0, 255, 0, 0, 0, 255] \<rparr> 0 0) = fl (730 / 9)"
    unfolding analyzeImage_fields assessImageQuality_unfold la
    by (simp add: v a8 a9 a10 a11 a12 a13 a14)
  have qb: "imageQuality (analyzeImage \<lparr> width = 3, height = 3,
      data = [0, 0, 0, 255, 0, 0, 0, 255, 0, 0, 0, 255,
              0, 0, 0, 255, 50, 0, 0, 255, 1, 0, 0, 255,
              0, 0, 0, 255, 9, 0, 0, 255, 0, 0, 0, 255] \<rparr> 0 0) = 5129099575616399 / 70368744177664"
    unfolding analyzeImage_fields assessImageQuality_unfold lb
    by (simp add: b8 b9 b10 b11 b12 b13 b14)
  have r1: "50 \<le> imageQuality (analyzeImage \<lparr> width = 3, height = 3,
      data = [0, 0, 0, 255, 0, 0, 0, 255, 0, 0, 0, 255,
              0, 0, 0, 255, 200, 200, 200, 255, 0, 0, 0, 255,
              0, 0, 0, 255, 0, 0, 0, 255, 0, 0, 0, 255] \<rparr> 0 0)"
    using imageQuality_range [OF va, of 0 0] by (rule conjunct1)
  have r2: "imageQuality (analyzeImage \<lparr> width = 3, height = 3,
      data = [0, 0, 0, 255, 0, 0, 0, 255, 0, 0, 0, 255,
              0, 0, 0, 255, 200, 200, 200, 255, 0, 0, 0, 255,
              0, 0, 0, 255, 0, 0, 0, 255, 0, 0, 0, 255] \<rparr> 0 0) \<le> 95"
    using imageQuality_range [OF va, of 0 0] by (rule conjunct1 [OF conjunct2])
  have f: "fst (qualityLoop \<lparr> width = 3, height = 3,
      data = [0, 0, 0, 255, 0, 0, 0, 255, 0, 0, 0, 255,
              0, 0, 0, 255, 50, 0, 0, 255, 1, 0, 0, 255,
              0, 0, 0, 255, 9, 0, 0, 255, 0, 0, 0, 255] \<rparr>) = 1" unfolding lb by simp
  have b1: "72 < imageQuality (analyzeImage \<lparr> width = 3, height = 3,
      data = [0, 0, 0, 255, 0, 0, 0, 255, 0, 0, 0, 255,
              0, 0, 0, 255, 50, 0, 0, 255, 1, 0, 0, 255,
              0, 0, 0, 255, 9, 0, 0, 255, 0, 0, 0, 255] \<rparr> 0 0)" unfolding qb by simp
  have b2: "imageQuality (analyzeImage \<lparr> width = 3, height = 3,
      data = [0, 0, 0, 255, 0, 0, 0, 255, 0, 0, 0, 255,
              0, 0, 0, 255, 50, 0, 0, 255, 1, 0, 0, 255,
              0, 0, 0, 255, 9, 0, 0, 255, 0, 0, 0, 255] \<rparr> 0 0) < 73" unfolding qb by simp
  show ?thesis by (intro conjI va qa r1 r2 vb f b1 b2)
qed

end
